theory Spec2Isabelle
  imports Complex_Main "HOL-Library.AList"
begin

section \<open>The zip-coordinate cache and the remote lookup (scripts/import-to-ray-test-accurate.ts)\<close>

subsection \<open>Data\<close>

text \<open>
  A JavaScript number as the import script handles it: \<open>parseFloat\<close> yields a finite
  double, \<open>NaN\<close> or an infinity. \<open>Num r\<close> stands for the finite double \<open>r\<close> (numbers are
  only stored and copied here, never computed with; the sign of zero is not modelled).
  \<open>JsonNull\<close> is a \<open>null\<close> sitting where a number is expected: \<open>loadZipCache\<close> casts
  whatever the cache file holds to \<open>ZipCoordinates | null\<close> without checking it.
\<close>

datatype number = Num real | NaN | PosInfinity | NegInfinity | JsonNull

text \<open>\<open>interface ZipCoordinates { lat: number; lng: number; city?: string; state?: string }\<close>;
  an absent or \<open>undefined\<close> optional field is \<open>None\<close>.\<close>

record ZipCoordinates =
  lat :: number
  lng :: number
  city :: "string option"
  state :: "string option"

text \<open>
  \<open>const zipCache: Map<string, ZipCoordinates | null>\<close>. A JavaScript \<open>Map\<close> keeps its
  keys unique and in insertion order: an association list, with \<open>set\<close> replacing the value
  of a present key in place and appending a new key. A cached \<open>null\<close> is the entry
  \<open>(zip, None)\<close>; a zip never attempted has no entry.
\<close>

type_synonym zip_map = "(string \<times> ZipCoordinates option) list"

definition Map_has :: "zip_map \<Rightarrow> string \<Rightarrow> bool" where
  "Map_has m k = (map_of m k \<noteq> None)"

definition Map_get :: "zip_map \<Rightarrow> string \<Rightarrow> ZipCoordinates option option" where
  "Map_get m k = map_of m k"

definition Map_set :: "zip_map \<Rightarrow> string \<Rightarrow> ZipCoordinates option \<Rightarrow> zip_map" where
  "Map_set m k v = AList.update k v m"

text \<open>\<open>x || null\<close> for \<open>x\<close> the result of \<open>Map.get\<close>: \<open>undefined\<close> (outer \<open>None\<close>) and
  \<open>null\<close> are falsy, an object is truthy.\<close>

definition or_null :: "ZipCoordinates option option \<Rightarrow> ZipCoordinates option" where
  "or_null x = (case x of Some (Some c) \<Rightarrow> Some c | _ \<Rightarrow> None)"

text \<open>\<open>zipCode.substring(0, 5)\<close>.\<close>

definition substring :: "string \<Rightarrow> nat \<Rightarrow> nat \<Rightarrow> string" where
  "substring s i j = take (j - i) (drop i s)"

subsection \<open>The geocoding source, as the script observes it\<close>

text \<open>
  What \<open>await fetch(...)\<close> and \<open>await response.json()\<close> can do, by the branches
  \<open>getZipCoordinates\<close> distinguishes:
  \<^item> the \<open>fetch\<close> promise rejects: a network failure, or the abort the script's own
    5000 ms timer triggers;
  \<^item> it resolves to a response with an HTTP status; \<open>response.ok\<close> is true for the
    statuses 200 to 299. The body is read only when \<open>response.ok\<close>:
    \<^item> \<open>BodyThrows\<close>: \<open>response.json()\<close> rejects (the body is not JSON), or the value is
      \<open>null\<close> so that reading \<open>data.places\<close> throws;
    \<^item> \<open>NoPlaces\<close>: \<open>data.places\<close> or \<open>data.places[0]\<close> is falsy;
    \<^item> \<open>Places p\<close>: \<open>data.places[0]\<close> is truthy; \<open>latitude p\<close> and \<open>longitude p\<close>
      are what \<open>parseFloat\<close> returns for the two fields (\<open>NaN\<close> for a missing or
      non-numeric one), \<open>place_name p\<close> and \<open>state_abbreviation p\<close> the two other
      fields as read.
\<close>

datatype rejection = NetworkFailure | AbortedAfter5000ms

record place =
  latitude :: number
  longitude :: number
  place_name :: "string option"
  state_abbreviation :: "string option"

datatype body = BodyThrows | NoPlaces | Places place

datatype fetch_result = Rejects rejection | Response nat body

definition response_ok :: "nat \<Rightarrow> bool" where
  "response_ok status = (200 \<le> status \<and> status \<le> 299)"

text \<open>What the process does to the outside, in order: the waits it makes and the requests
  it sends (the zip of \<open>https://api.zippopotam.us/us/${zip5}\<close>).\<close>

datatype event = Delay nat | Fetch string

text \<open>The source answers a request as a function of everything that happened before
  it and of the zip asked for, so that a second request for the same zip may be answered
  differently.\<close>

type_synonym network = "event list \<Rightarrow> string \<Rightarrow> fetch_result"

text \<open>The content of \<open>zip-coordinates-cache.json\<close>: a JSON object, entry by entry, or
  something \<open>JSON.parse\<close> and \<open>Object.entries\<close> throw on.\<close>

datatype file_content = JsonObject zip_map | NotJson

text \<open>The process state the functions below read and write: the module-level
  \<open>zipCache\<close>, the log of waits and requests, and the cache file (\<open>None\<close>: no such
  file). Console output is not modelled.\<close>

record process =
  zipCache :: zip_map
  trace :: "event list"
  cacheFile :: "file_content option"

subsection \<open>getZipCoordinates\<close>

definition getZipCoordinates ::
  "network \<Rightarrow> string \<Rightarrow> process \<Rightarrow> ZipCoordinates option \<times> process" where
  "getZipCoordinates net zipCode s =
    (let zip5 = substring zipCode 0 5 in
     if Map_has (zipCache s) zip5 then (or_null (Map_get (zipCache s) zip5), s)
     else
       let s1 = s\<lparr>trace := trace s @ [Delay 100]\<rparr>;
           s2 = s1\<lparr>trace := trace s1 @ [Fetch zip5]\<rparr>
       in case net (trace s1) zip5 of
            Rejects why \<Rightarrow> (None, s2)
          | Response status b \<Rightarrow>
              if response_ok status then
                (case b of
                   BodyThrows \<Rightarrow> (None, s2)
                 | NoPlaces \<Rightarrow> (None, s2\<lparr>zipCache := Map_set (zipCache s2) zip5 None\<rparr>)
                 | Places p \<Rightarrow>
                     let coords = \<lparr>lat = latitude p, lng = longitude p,
                                    city = place_name p, state = state_abbreviation p\<rparr>
                     in (Some coords,
                         s2\<lparr>zipCache := Map_set (zipCache s2) zip5 (Some coords)\<rparr>))
              else (None, s2\<lparr>zipCache := Map_set (zipCache s2) zip5 None\<rparr>))"

text \<open>The remote calls a run has issued, and the process before anything happened.\<close>

definition fetches :: "event list \<Rightarrow> string list" where
  "fetches es = concat (map (\<lambda>e. case e of Fetch z \<Rightarrow> [z] | Delay n \<Rightarrow> []) es)"

definition fresh :: process where
  "fresh = \<lparr>zipCache = [], trace = [], cacheFile = None\<rparr>"

subsection \<open>loadZipCache and saveZipCache\<close>

text \<open>
  \<open>data[zip] = coords\<close> on the plain object \<open>data\<close>. The value is an object or \<open>null\<close>, so
  for the key \<open>__proto__\<close> the assignment sets the prototype of \<open>data\<close> and creates no
  property of its own; every other key is created or overwritten. JavaScript lists the
  keys of an object that are array indices first; that order is not modelled (the file
  is read back into a map, and the statements below compare maps by their content).
\<close>

definition object_set :: "zip_map \<Rightarrow> string \<Rightarrow> ZipCoordinates option \<Rightarrow> zip_map" where
  "object_set data k v = (if k = ''__proto__'' then data else AList.update k v data)"

text \<open>
  \<open>JSON.stringify\<close> followed by \<open>JSON.parse\<close>, on the values the cache holds: a finite
  number is written as a decimal that reads back as the same double, \<open>NaN\<close> and the
  infinities are written as \<open>null\<close>, a property whose value is \<open>undefined\<close> is left out
  (and reads back as \<open>undefined\<close>), a string is kept, \<open>null\<close> is kept.
\<close>

definition JSON_number :: "number \<Rightarrow> number" where
  "JSON_number n = (case n of Num r \<Rightarrow> Num r | _ \<Rightarrow> JsonNull)"

definition JSON_coords :: "ZipCoordinates \<Rightarrow> ZipCoordinates" where
  "JSON_coords c = c\<lparr>lat := JSON_number (lat c), lng := JSON_number (lng c)\<rparr>"

definition JSON_stringify :: "zip_map \<Rightarrow> file_content" where
  "JSON_stringify data = JsonObject (map (\<lambda>(k, v). (k, map_option JSON_coords v)) data)"

definition saveZipCache :: "process \<Rightarrow> process" where
  "saveZipCache s =
    (let data = fold (\<lambda>(zip, coords) data. object_set data zip coords) (zipCache s) []
     in s\<lparr>cacheFile := Some (JSON_stringify data)\<rparr>)"

text \<open>\<open>loadZipCache\<close>: nothing happens when the file does not exist, and the \<open>catch\<close>
  leaves the cache as it is when the content does not parse to an object.\<close>

definition loadZipCache :: "process \<Rightarrow> process" where
  "loadZipCache s =
    (case cacheFile s of
       None \<Rightarrow> s
     | Some NotJson \<Rightarrow> s
     | Some (JsonObject entries) \<Rightarrow>
         s\<lparr>zipCache := fold (\<lambda>(zip, coords) m. Map_set m zip coords) entries (zipCache s)\<rparr>)"

text \<open>A stored value that the JSON file can hold as it is: \<open>null\<close>, or a coordinate whose
  \<open>lat\<close> and \<open>lng\<close> are finite numbers.\<close>

definition is_finite :: "number \<Rightarrow> bool" where
  "is_finite n = (case n of Num r \<Rightarrow> True | other \<Rightarrow> False)"

definition finite_coords :: "ZipCoordinates option \<Rightarrow> bool" where
  "finite_coords v = (case v of None \<Rightarrow> True | Some c \<Rightarrow> is_finite (lat c) \<and> is_finite (lng c))"

text \<open>A fresh process that finds the file a previous run left: the in-memory cache is
  empty again.\<close>

definition restart :: "process \<Rightarrow> process" where
  "restart s = s\<lparr>zipCache := []\<rparr>"

subsection \<open>importData: the pre-fetch of the unique zip codes\<close>

text \<open>
  \<open>importData\<close> up to the point where it connects to the database (lines 178 to 238):
  load the cache, collect the unique 5-character zips of the CSV rows, fetch those the
  cache does not have, one call after the other, and save the cache when there was
  something to fetch. \<open>rows\<close> are the \<open>ZipCode\<close> fields of the CSV records; a JavaScript
  \<open>Set\<close> keeps insertion order.
\<close>

definition Set_add :: "string list \<Rightarrow> string \<Rightarrow> string list" where
  "Set_add u x = (if x \<in> set u then u else u @ [x])"

definition uniqueZips :: "string list \<Rightarrow> string list" where
  "uniqueZips rows =
     fold (\<lambda>zipCode u. if zipCode \<noteq> [] then Set_add u (substring zipCode 0 5) else u) rows []"

definition uncachedZips :: "string list \<Rightarrow> process \<Rightarrow> string list" where
  "uncachedZips rows s = filter (\<lambda>z. \<not> Map_has (zipCache s) z) (uniqueZips rows)"

text \<open>The \<open>for (const zip of uncachedZips)\<close> loop with its two counters.\<close>

fun fetchLoop :: "network \<Rightarrow> string list \<Rightarrow> nat \<times> nat \<times> process \<Rightarrow> nat \<times> nat \<times> process" where
  "fetchLoop net [] acc = acc"
| "fetchLoop net (z # zips) (fetched, failed, s) =
     (case getZipCoordinates net z s of
        (Some coords, s') \<Rightarrow> fetchLoop net zips (fetched + 1, failed, s')
      | (None, s') \<Rightarrow> fetchLoop net zips (fetched, failed + 1, s'))"

definition importData_prefetch :: "network \<Rightarrow> string list \<Rightarrow> process \<Rightarrow> process" where
  "importData_prefetch net rows s0 =
    (let s = loadZipCache s0;
         uncached = uncachedZips rows s
     in if length uncached > 0
        then (case fetchLoop net uncached (0, 0, s) of (fetched, failed, s') \<Rightarrow> saveZipCache s')
        else s)"

section \<open>The approximate lookup by zip prefix (scripts/import-to-ray-test.ts)\<close>

text \<open>
  \<open>const ZIP_RANGES: { [key: string]: { lat: number; lng: number } }\<close>, in the order the
  object literal lists its keys (none is an array index, so \<open>Object.entries\<close> keeps that
  order). A coordinate is the pair \<open>(lat, lng)\<close> of the two literals.
\<close>

definition ZIP_RANGES :: "(string \<times> real \<times> real) list" where
  "ZIP_RANGES =
    [
     (''010-027'', (42.0, -71.0)), (''028-029'', (41.8, -71.4)), (''030-038'', (43.0, -71.5)),
     (''039-049'', (44.5, -69.0)), (''050-059'', (44.0, -72.7)), (''060-069'', (41.6, -72.7)),
     (''070-089'', (40.7, -74.2)), (''100-149'', (40.7, -74.0)), (''150-196'', (39.9, -75.2)),
     (''197-199'', (39.3, -76.6)), (''200-205'', (38.9, -77.0)), (''220-246'', (37.5, -77.5)),
     (''247-268'', (35.8, -78.6)), (''270-289'', (33.7, -84.4)), (''290-299'', (33.5, -86.8)),
     (''300-319'', (33.75, -84.39)), (''320-339'', (28.5, -81.4)), (''340-349'', (33.5, -86.8)),
     (''350-369'', (32.3, -86.3)), (''370-385'', (36.17, -86.78)), (''386-397'', (35.15, -90.05)),
     (''398-399'', (38.2, -85.7)), (''400-427'', (38.2, -85.7)), (''430-432'', (39.96, -82.99)),
     (''433-436'', (39.76, -84.19)), (''437-438'', (41.08, -81.52)), (''440-449'', (41.5, -81.7)),
     (''450-458'', (39.76, -86.16)), (''460-469'', (39.76, -86.16)), (''470-479'', (41.9, -87.6)),
     (''480-499'', (42.3, -83.0)), (''500-528'', (41.6, -93.6)), (''530-549'', (43.1, -89.4)),
     (''550-567'', (44.9, -93.3)), (''570-577'', (43.5, -96.7)), (''580-588'', (46.8, -100.8)),
     (''590-599'', (46.6, -112.0)), (''600-629'', (39.8, -89.6)), (''630-658'', (38.6, -90.2)),
     (''660-679'', (39.1, -94.6)), (''680-699'', (41.3, -96.0)), (''700-714'', (29.95, -90.07)),
     (''715-729'', (30.45, -91.15)), (''730-749'', (35.5, -97.5)), (''750-759'', (32.78, -96.8)),
     (''760-769'', (32.75, -97.33)), (''770-779'', (29.76, -95.37)), (''780-789'', (29.42, -98.49)),
     (''790-799'', (31.76, -106.49)), (''800-816'', (39.7, -104.9)), (''820-831'', (42.9, -106.3)),
     (''832-838'', (43.5, -112.0)), (''840-847'', (40.8, -111.9)), (''850-865'', (33.45, -112.07)),
     (''870-884'', (35.08, -106.65)), (''885-895'', (36.17, -115.14)), (''900-918'', (34.05, -118.24)),
     (''919-921'', (32.72, -117.16)), (''922-928'', (33.45, -117.0)), (''930-935'', (35.37, -119.02)),
     (''936-966'', (37.77, -122.42)), (''967-968'', (21.31, -157.86)), (''970-979'', (45.52, -122.68)),
     (''980-994'', (47.61, -122.33)), (''995-999'', (61.22, -149.9))
    ]"

text \<open>
  Strings here are lists of code units below 256. \<open>parseInt(s)\<close> without a radix: skip
  leading white space, read a sign, read \<open>0x\<close> or \<open>0X\<close> as the mark of radix 16, then take
  the longest run of digits of the radix; no digit at all gives \<open>NaN\<close> (\<open>None\<close>).
\<close>

definition is_space :: "char \<Rightarrow> bool" where
  "is_space c = ((of_char c :: nat) \<in> {9, 10, 11, 12, 13, 32, 160})"

definition digit_of :: "char \<Rightarrow> nat option" where
  "digit_of c =
    (let n = (of_char c :: nat) in
     if 48 \<le> n \<and> n \<le> 57 then Some (n - 48)
     else if 97 \<le> n \<and> n \<le> 122 then Some (n - 87)
     else if 65 \<le> n \<and> n \<le> 90 then Some (n - 55)
     else None)"

definition is_digit_in :: "nat \<Rightarrow> char \<Rightarrow> bool" where
  "is_digit_in radix c = (case digit_of c of Some d \<Rightarrow> d < radix | None \<Rightarrow> False)"

definition digits_value :: "nat \<Rightarrow> string \<Rightarrow> nat" where
  "digits_value radix ds = foldl (\<lambda>a c. a * radix + (case digit_of c of Some d \<Rightarrow> d | None \<Rightarrow> 0)) 0 ds"

definition parseInt :: "string \<Rightarrow> int option" where
  "parseInt s =
    (let s1 = dropWhile is_space s;
         negative = (take 1 s1 = ''-'');
         s2 = (if take 1 s1 = ''-'' \<or> take 1 s1 = ''+'' then drop 1 s1 else s1);
         hex = (take 2 s2 = ''0x'' \<or> take 2 s2 = ''0X'');
         radix = (if hex then 16 else 10);
         s3 = (if hex then drop 2 s2 else s2);
         z = takeWhile (is_digit_in radix) s3
     in if z = [] then None
        else Some ((if negative then - 1 else 1) * int (digits_value radix z)))"

text \<open>\<open>range.split('-')\<close>.\<close>

fun split :: "string \<Rightarrow> char \<Rightarrow> string list" where
  "split [] sep = [[]]"
| "split (c # cs) sep =
     (if c = sep then [] # split cs sep
      else (case split cs sep of p # ps \<Rightarrow> (c # p) # ps | [] \<Rightarrow> [[c]]))"

text \<open>\<open>Number(s)\<close> on the strings the table's keys split into: a run of decimal digits is
  its value and the empty string is 0. Every other string is \<open>NaN\<close> here (signs, white
  space, fractions, exponents and radix prefixes are not modelled; no key has them).\<close>

definition Number :: "string \<Rightarrow> int option" where
  "Number s = (if list_all (is_digit_in 10) s then Some (int (digits_value 10 s)) else None)"

text \<open>\<open>const [start, end] = range.split('-').map(Number)\<close>: the first two parts as
  numbers. \<open>None\<close> when a part is missing or \<open>NaN\<close>; every comparison with it is then
  false and the loop goes on.\<close>

definition rangeBounds :: "string \<Rightarrow> (int \<times> int) option" where
  "rangeBounds key =
    (case map Number (split key (CHR ''-'')) of
       Some start # Some end' # parts \<Rightarrow> Some (start, end')
     | other \<Rightarrow> None)"

text \<open>The \<open>for\<close> loop of \<open>getApproximateLocation\<close> over \<open>Object.entries(ZIP_RANGES)\<close>: the
  first range that holds the prefix wins.\<close>

fun scanRanges :: "int \<Rightarrow> (string \<times> real \<times> real) list \<Rightarrow> (real \<times> real) option" where
  "scanRanges prefix [] = None"
| "scanRanges prefix ((key, coords) # rest) =
     (case rangeBounds key of
        Some (start, end') \<Rightarrow>
          if prefix \<ge> start \<and> prefix \<le> end' then Some coords else scanRanges prefix rest
      | None \<Rightarrow> scanRanges prefix rest)"

definition getApproximateLocation :: "string \<Rightarrow> (real \<times> real) option" where
  "getApproximateLocation zipCode =
    (if zipCode = [] \<or> length zipCode < 3 then None
     else case parseInt (substring zipCode 0 3) of
            None \<Rightarrow> None
          | Some prefix \<Rightarrow> scanRanges prefix ZIP_RANGES)"

text \<open>What the table's invariant speaks of: a prefix lies in the range a key names, and
  the range of one key lies entirely below the range of another.\<close>

definition in_range :: "string \<Rightarrow> int \<Rightarrow> bool" where
  "in_range key p = (case rangeBounds key of Some (start, end') \<Rightarrow> start \<le> p \<and> p \<le> end' | None \<Rightarrow> False)"

definition bounds_below :: "(int \<times> int) option \<Rightarrow> (int \<times> int) option \<Rightarrow> bool" where
  "bounds_below a b =
    (case (a, b) of
       (Some (s1, e1), Some (s2, e2)) \<Rightarrow> s1 \<le> e1 \<and> e1 < s2 \<and> s2 \<le> e2
     | other \<Rightarrow> False)"

definition range_below :: "string \<Rightarrow> string \<Rightarrow> bool" where
  "range_below k1 k2 = bounds_below (rangeBounds k1) (rangeBounds k2)"

section \<open>The three radius queries of the geospatial test script\<close>

text \<open>
  The script that compares three ways to search within a radius (\<open>runTests\<close>) sends three
  SQL queries to the table \<open>RayTestShowcase\<close>, for a fixed centre and radius. A row of the
  table, by the columns the \<open>WHERE\<close> and \<open>HAVING\<close> clauses read (both may be \<open>NULL\<close>); a
  stored location is \<open>geography::Point(lat, lng, 4326)\<close>.
\<close>

type_synonym point = "real \<times> real"

record profile =
  PersonID :: int
  ZipCode :: "string option"
  GeoLocation :: "point option"

text \<open>
  The database engine is not part of the repository: its geodesic distance in metres
  (\<open>STDistance\<close>) and its test of a point against a polygon given by its vertices as
  \<open>(longitude, latitude)\<close> pairs (\<open>STIntersects\<close>) are parameters. Numbers are real numbers
  here: the rounding of the script's and the engine's floating-point arithmetic is not
  modelled.
\<close>

record engine =
  STDistance :: "point \<Rightarrow> point \<Rightarrow> real"
  STIntersects :: "point \<Rightarrow> (real \<times> real) list \<Rightarrow> bool"

text \<open>
  What \<open>await pool.request().query(...)\<close> gives: the promise resolves to a result whose
  \<open>recordset\<close> holds the rows, or it rejects with a \<open>RequestError\<close> when the engine refuses
  the statement. \<open>runTests\<close> catches nothing, so a rejected query ends it there.
\<close>

datatype query_outcome = Recordset "profile list" | RequestError

text \<open>
  The engine compiles a statement before it reads any row. The part of the Transact-SQL
  rules that tells the three statements apart: a \<open>SELECT\<close> with a \<open>GROUP BY\<close> or a \<open>HAVING\<close>
  clause is a grouped query (with \<open>HAVING\<close> alone, the rows that pass \<open>WHERE\<close> form one
  group), and in a grouped query every column that the select list or the \<open>HAVING\<close>
  clause names outside an aggregate function must be a \<open>GROUP BY\<close> column; otherwise the
  statement is refused with the errors 8120 (select list) and 8121 (\<open>HAVING\<close>), whatever
  the table holds. A statement, by what this rule reads:
\<close>

record statement =
  plain_columns :: "string list"
  group_by :: "string list"
  has_having :: bool

definition grouped :: "statement \<Rightarrow> bool" where
  "grouped q = (has_having q \<or> 0 < length (group_by q))"

definition compiles :: "statement \<Rightarrow> bool" where
  "compiles q =
    (if grouped q then list_all (\<lambda>c. c \<in> set (group_by q)) (plain_columns q) else True)"

definition query :: "statement \<Rightarrow> profile list \<Rightarrow> query_outcome" where
  "query q rows = (if compiles q then Recordset rows else RequestError)"

definition RADIUS_MILES :: real where
  "RADIUS_MILES = 50"

definition radiusMeters :: real where
  "radiusMeters = RADIUS_MILES * 1609.344"

definition centerLat :: real where
  "centerLat = 41.01"

definition centerLng :: real where
  "centerLng = -81.84"

text \<open>Test 1: \<open>SELECT PersonID, Name, City, State, ZipCode, GeoLocation.STDistance(@center) /
  1609.344 as distance_miles ... WHERE GeoLocation IS NOT NULL AND
  GeoLocation.STDistance(@center) <= radiusMeters ORDER BY GeoLocation.STDistance(@center)\<close>,
  with neither \<open>GROUP BY\<close> nor \<open>HAVING\<close>.\<close>

definition statement1 :: statement where
  "statement1 =
    \<lparr>plain_columns = [''PersonID'', ''Name'', ''City'', ''State'', ''ZipCode'', ''GeoLocation''],
     group_by = [], has_having = False\<rparr>"

definition test1_native :: "engine \<Rightarrow> profile list \<Rightarrow> query_outcome" where
  "test1_native db table =
    query statement1
      (sort_key (\<lambda>r. case GeoLocation r of Some g \<Rightarrow> STDistance db g (centerLat, centerLng) | None \<Rightarrow> 0)
        (filter (\<lambda>r. case GeoLocation r of
                        None \<Rightarrow> False
                      | Some g \<Rightarrow> STDistance db g (centerLat, centerLng) \<le> radiusMeters) table))"

text \<open>Test 2: the same with \<open>AND GeoLocation.STIntersects(@bbox) = 1\<close>, for the rectangle
  the script computes around the centre.\<close>

definition latDelta :: real where
  "latDelta = RADIUS_MILES / 69.0"

definition lngDelta :: real where
  "lngDelta = RADIUS_MILES / (69.0 * cos ((centerLat * pi) / 180))"

definition bbox :: "(real \<times> real) list" where
  "bbox =
    [(centerLng - lngDelta, centerLat - latDelta),
     (centerLng + lngDelta, centerLat - latDelta),
     (centerLng + lngDelta, centerLat + latDelta),
     (centerLng - lngDelta, centerLat + latDelta),
     (centerLng - lngDelta, centerLat - latDelta)]"

definition statement2 :: statement where
  "statement2 =
    \<lparr>plain_columns = [''PersonID'', ''Name'', ''City'', ''State'', ''ZipCode'', ''GeoLocation''],
     group_by = [], has_having = False\<rparr>"

definition test2_bbox :: "engine \<Rightarrow> profile list \<Rightarrow> query_outcome" where
  "test2_bbox db table =
    query statement2
      (sort_key (\<lambda>r. case GeoLocation r of Some g \<Rightarrow> STDistance db g (centerLat, centerLng) | None \<Rightarrow> 0)
        (filter (\<lambda>r. case GeoLocation r of
                        None \<Rightarrow> False
                      | Some g \<Rightarrow> STIntersects db g bbox \<and>
                                  STDistance db g (centerLat, centerLng) \<le> radiusMeters) table))"

text \<open>
  Test 3, the query without spatial features. It never reads \<open>GeoLocation\<close>: the position
  of a row is one of four hard-coded coordinates, chosen by \<open>LEFT(ZipCode, 3)\<close>, and the
  distance to the centre is the great-circle expression with the radius 3959. Strings
  are compared character by character in code order (the engine's collation agrees
  with it on digits).
\<close>

fun string_le :: "string \<Rightarrow> string \<Rightarrow> bool" where
  "string_le [] ys = True"
| "string_le (x # xs) [] = False"
| "string_le (x # xs) (y # ys) =
     ((of_char x :: nat) < of_char y \<or> (x = y \<and> string_le xs ys))"

definition between :: "string \<Rightarrow> string \<Rightarrow> string \<Rightarrow> bool" where
  "between x lo hi = (string_le lo x \<and> string_le x hi)"

definition LEFT :: "string \<Rightarrow> nat \<Rightarrow> string" where
  "LEFT s n = take n s"

definition RADIANS :: "real \<Rightarrow> real" where
  "RADIANS x = x * pi / 180"

definition caseLat :: "string \<Rightarrow> real" where
  "caseLat zipCode =
    (if between (LEFT zipCode 3) ''440'' ''449'' then 41.5
     else if between (LEFT zipCode 3) ''430'' ''432'' then 39.96
     else if between (LEFT zipCode 3) ''450'' ''458'' then 39.76
     else 40.0)"

definition caseLng :: "string \<Rightarrow> real" where
  "caseLng zipCode =
    (if between (LEFT zipCode 3) ''440'' ''449'' then -81.7
     else if between (LEFT zipCode 3) ''430'' ''432'' then -82.99
     else if between (LEFT zipCode 3) ''450'' ''458'' then -86.16
     else -82.0)"

text \<open>The expression \<open>3959 * ACOS(COS(RADIANS(lat1)) * COS(RADIANS(lat2)) * COS(RADIANS(lng2) -
  RADIANS(lng1)) + SIN(RADIANS(lat1)) * SIN(RADIANS(lat2)))\<close> of the select list and of the
  \<open>HAVING\<close> clause, as a function of the two positions it is written for: the centre and
  the coordinate the two \<open>CASE\<close> expressions choose.\<close>

definition great_circle_miles :: "point \<Rightarrow> point \<Rightarrow> real" where
  "great_circle_miles c p =
    3959 * arccos (cos (RADIANS (fst c)) * cos (RADIANS (fst p)) *
                   cos (RADIANS (snd p) - RADIANS (snd c)) +
                   sin (RADIANS (fst c)) * sin (RADIANS (fst p)))"

definition distance_miles :: "string \<Rightarrow> real" where
  "distance_miles zipCode =
    great_circle_miles (centerLat, centerLng) (caseLat zipCode, caseLng zipCode)"

text \<open>
  The statement is \<open>SELECT PersonID, Name, City, State, ZipCode, 3959 * ACOS(...) as
  distance_miles FROM RayTestShowcase WHERE ZipCode IS NOT NULL HAVING 3959 * ACOS(...) <= 50
  ORDER BY distance_miles\<close>: a \<open>HAVING\<close> clause, no \<open>GROUP BY\<close>, and the columns of the
  select list and \<open>ZipCode\<close> in the \<open>HAVING\<close> clause outside any aggregate function. The
  rows are those the two clauses are written to keep.
\<close>

definition statement3 :: statement where
  "statement3 =
    \<lparr>plain_columns = [''PersonID'', ''Name'', ''City'', ''State'', ''ZipCode''],
     group_by = [], has_having = True\<rparr>"

definition test3_manual :: "profile list \<Rightarrow> query_outcome" where
  "test3_manual table =
    query statement3
      (sort_key (\<lambda>r. case ZipCode r of Some z \<Rightarrow> distance_miles z | None \<Rightarrow> 0)
        (filter (\<lambda>r. case ZipCode r of
                        None \<Rightarrow> False
                      | Some z \<Rightarrow> distance_miles z \<le> RADIUS_MILES) table))"

section \<open>The distance calculator\<close>

text \<open>
  Modelled from the spec: the function \<open>distanceMiles\<close> is not in the source files (they
  hold the distance only as the SQL expression of test 3, written for a fixed centre).
  By the spec it takes two coordinates, each a latitude and a longitude in degrees, and
  implements the Haversine great-circle formula with the Earth radius 3959 miles:
  with \<open>h = sin\<^sup>2(\<Delta>\<phi> / 2) + cos \<phi>\<^sub>1 * cos \<phi>\<^sub>2 * sin\<^sup>2(\<Delta>\<lambda> / 2)\<close>, for the latitudes
  \<open>\<phi>\<close> and the differences \<open>\<Delta>\<phi>\<close>, \<open>\<Delta>\<lambda>\<close> of the latitudes and longitudes in radians, the
  distance is \<open>2 * R * arcsin (sqrt h)\<close>. Numbers are real numbers: the rounding of
  floating-point arithmetic is not modelled.
\<close>

definition EARTH_RADIUS_MILES :: real where
  "EARTH_RADIUS_MILES = 3959"

definition haversine :: "point \<Rightarrow> point \<Rightarrow> real" where
  "haversine a b =
    (sin (RADIANS (fst b - fst a) / 2))\<^sup>2 +
    cos (RADIANS (fst a)) * cos (RADIANS (fst b)) * (sin (RADIANS (snd b - snd a) / 2))\<^sup>2"

definition distanceMiles :: "point \<Rightarrow> point \<Rightarrow> real" where
  "distanceMiles a b = 2 * EARTH_RADIUS_MILES * arcsin (sqrt (haversine a b))"

text \<open>
  Modelled from the spec: the angular separation of two coordinates, which the spec
  names and no source file computes, is the angle, seen from the centre of the sphere,
  between the points they name: the angle between their unit vectors, in radians
  between \<open>0\<close> and \<open>\<pi>\<close>.
\<close>

definition unit_vector :: "point \<Rightarrow> real \<times> real \<times> real" where
  "unit_vector a =
    (cos (RADIANS (fst a)) * cos (RADIANS (snd a)),
     cos (RADIANS (fst a)) * sin (RADIANS (snd a)),
     sin (RADIANS (fst a)))"

definition dot :: "real \<times> real \<times> real \<Rightarrow> real \<times> real \<times> real \<Rightarrow> real" where
  "dot u v = fst u * fst v + fst (snd u) * fst (snd v) + snd (snd u) * snd (snd v)"

definition angular_separation :: "point \<Rightarrow> point \<Rightarrow> real" where
  "angular_separation a b = arccos (dot (unit_vector a) (unit_vector b))"

section \<open>The radius query planner\<close>

text \<open>
  Modelled from the spec: the planner \<open>findWithinRadius\<close> and its result type are not in
  the source files (the scripts import the radius search from \<open>src/lib/geospatial\<close> and
  \<open>src/lib/azure-spatial\<close>, which are not among them). By the spec, the centre is resolved
  by the cache, else the remote lookup, else the approximate fallback; a zip with fewer
  than three digits fails at once. When no stage gives a coordinate the planner returns
  \<open>QueryFailure{reason: UnresolvableCenter}\<close>, otherwise the result of the search around
  the centre, an ordered sequence of record ids with their distances. The stages are the
  functions of the import scripts above; \<open>search\<close> stands for the strategy run against the
  records store.
\<close>

datatype failure_reason = UnresolvableCenter | SpatialQueryFailure

datatype query_result = SearchResult "(int \<times> real) list" | QueryFailure failure_reason

definition digit_count :: "string \<Rightarrow> nat" where
  "digit_count s = length (filter (is_digit_in 10) s)"

definition resolveCenter :: "network \<Rightarrow> string \<Rightarrow> process \<Rightarrow> (number \<times> number) option \<times> process" where
  "resolveCenter net centerZip s =
    (if digit_count (substring centerZip 0 5) < 3 then (None, s)
     else case getZipCoordinates net centerZip s of
            (Some c, s') \<Rightarrow> (Some (lat c, lng c), s')
          | (None, s') \<Rightarrow>
              (case getApproximateLocation centerZip of
                 Some (la, lo) \<Rightarrow> (Some (Num la, Num lo), s')
               | None \<Rightarrow> (None, s')))"

definition findWithinRadius ::
  "network \<Rightarrow> (number \<times> number \<Rightarrow> real \<Rightarrow> (int \<times> real) list) \<Rightarrow> string \<Rightarrow> real \<Rightarrow> process
     \<Rightarrow> query_result \<times> process" where
  "findWithinRadius net search centerZip radiusMiles s =
    (case resolveCenter net centerZip s of
       (None, s') \<Rightarrow> (QueryFailure UnresolvableCenter, s')
     | (Some center, s') \<Rightarrow> (SearchResult (search center radiusMiles), s'))"

section \<open>Example inputs\<close>

text \<open>Thirteen CSV rows with ten different 5-character zips, a cache that has three of
  them (one as a confirmed-invalid \<open>null\<close>), and a geocoding source that answers every
  request with a place.\<close>

definition demo_rows :: "string list" where
  "demo_rows = [''44256'', ''44289'', ''10001-0001'', ''90210'', [], ''33139'', ''60601'',
                ''44256-1234'', ''00000'', ''99999'', ''10001'', ''73301'', ''02134'']"

definition demo_cache :: zip_map where
  "demo_cache =
     [(''44256'', Some \<lparr>lat = Num 41.14, lng = Num (-81.86), city = Some ''Medina'', state = Some ''OH''\<rparr>),
      (''00000'', None),
      (''10001'', Some \<lparr>lat = Num 40.75, lng = Num (-73.99), city = Some ''New York'', state = Some ''NY''\<rparr>)]"

definition demo_net :: network where
  "demo_net tr z = Response 200 (Places \<lparr>latitude = Num 40, longitude = Num (-80),
                                       place_name = Some ''Somewhere'', state_abbreviation = Some ''OH''\<rparr>)"

text \<open>A table with one profile that has a zip code of the Cleveland area and no stored
  location (its zip was not geocoded), and one with a profile stored some ten miles from
  the centre; an engine for the examples only, which measures distance crudely and takes
  the polygon for the rectangle of its vertices.\<close>

definition demo_unlocated :: "profile list" where
  "demo_unlocated = [\<lparr>PersonID = 1, ZipCode = Some ''44101'', GeoLocation = None\<rparr>]"

definition demo_located :: "profile list" where
  "demo_located = [\<lparr>PersonID = 2, ZipCode = Some ''44256'', GeoLocation = Some (41.14, -81.86)\<rparr>]"

definition demo_engine :: engine where
  "demo_engine =
     \<lparr>STDistance = (\<lambda>p q. 111000 * (\<bar>fst p - fst q\<bar> + \<bar>snd p - snd q\<bar>)),
      STIntersects = (\<lambda>p polygon.
         list_ex (\<lambda>v. fst v \<le> snd p) polygon \<and> list_ex (\<lambda>v. snd p \<le> fst v) polygon \<and>
         list_ex (\<lambda>v. snd v \<le> fst p) polygon \<and> list_ex (\<lambda>v. fst p \<le> snd v) polygon)\<rparr>"

section \<open>Properties\<close>

subsection \<open>The map operations and the request log\<close>

lemma Map_has_set: "Map_has (Map_set m k v) k' = (k' = k \<or> Map_has m k')"
  by (simp add: Map_has_def Map_set_def update_conv')

lemma Map_get_set: "Map_get (Map_set m k v) k' = (if k' = k then Some v else Map_get m k')"
  by (simp add: Map_get_def Map_set_def update_conv')

lemma Map_has_get: "Map_has m k = (\<exists>v. Map_get m k = Some v)"
  by (simp add: Map_has_def Map_get_def)

lemma fetches_append: "fetches (xs @ ys) = fetches xs @ fetches ys"
  by (simp add: fetches_def)

lemma fetches_simps:
  "fetches [] = []"
  "fetches (Delay n # es) = fetches es"
  "fetches (Fetch z # es) = z # fetches es"
  by (simp_all add: fetches_def)

lemma fetches_pairs: "fetches (concat (map (\<lambda>z. [Delay 100, Fetch z]) zs)) = zs"
  by (induction zs) (simp_all add: fetches_simps)

subsection \<open>getZipCoordinates, branch by branch\<close>

lemma getZipCoordinates_cached:
  assumes "Map_get (zipCache s) (substring zipCode 0 5) = Some v"
  shows "getZipCoordinates net zipCode s = (v, s)"
  using assms by (cases v) (simp_all add: getZipCoordinates_def Map_has_get or_null_def)

lemma getZipCoordinates_uncached:
  assumes "\<not> Map_has (zipCache s) (substring zipCode 0 5)"
  shows "getZipCoordinates net zipCode s =
    (let zip5 = substring zipCode 0 5;
         s2 = s\<lparr>trace := trace s @ [Delay 100, Fetch zip5]\<rparr>
     in case net (trace s @ [Delay 100]) zip5 of
          Rejects why \<Rightarrow> (None, s2)
        | Response status b \<Rightarrow>
            if response_ok status then
              (case b of
                 BodyThrows \<Rightarrow> (None, s2)
               | NoPlaces \<Rightarrow> (None, s2\<lparr>zipCache := Map_set (zipCache s) zip5 None\<rparr>)
               | Places p \<Rightarrow>
                   (Some \<lparr>lat = latitude p, lng = longitude p,
                           city = place_name p, state = state_abbreviation p\<rparr>,
                    s2\<lparr>zipCache := Map_set (zipCache s) zip5
                      (Some \<lparr>lat = latitude p, lng = longitude p,
                           city = place_name p, state = state_abbreviation p\<rparr>)\<rparr>))
            else (None, s2\<lparr>zipCache := Map_set (zipCache s) zip5 None\<rparr>))"
  using assms
  by (simp add: getZipCoordinates_def Let_def split: fetch_result.splits body.splits)

lemma getZipCoordinates_trace:
  assumes "\<not> Map_has (zipCache s) (substring z 0 5)"
  shows "trace (snd (getZipCoordinates net z s)) = trace s @ [Delay 100, Fetch (substring z 0 5)]"
  using assms
  by (simp add: getZipCoordinates_uncached Let_def split: fetch_result.splits body.splits)

lemma getZipCoordinates_keys:
  assumes "Map_has (zipCache (snd (getZipCoordinates net z s))) k"
  shows "k = substring z 0 5 \<or> Map_has (zipCache s) k"
  using assms
  by (cases "Map_has (zipCache s) (substring z 0 5)")
     (auto simp: getZipCoordinates_def Let_def Map_has_set split: fetch_result.splits body.splits if_splits)

text \<open>
  \<^bold>\<open>Claim C1.\<close> When the cache has an entry for the zip (for its first five characters,
  the key \<open>getZipCoordinates\<close> uses), be it a coordinate or the \<open>null\<close> of a
  confirmed-invalid zip, \<open>getZipCoordinates\<close> returns the cached value and leaves the
  process as it was: nothing is added to the log of waits and requests, and neither the
  cache nor the cache file changes, whatever the geocoding source would have answered.
\<close>

theorem C1_cache_hit_returns_entry_no_remote_call:
  assumes "Map_get (zipCache s) (substring zipCode 0 5) = Some v"
  shows "getZipCoordinates net zipCode s = (v, s)"
  using assms by (rule getZipCoordinates_cached)

theorem C1_cache_hit_witness:
  "Map_get demo_cache (substring ''00000-1234'' 0 5) = Some None \<and>
   getZipCoordinates demo_net ''00000-1234'' \<lparr>zipCache = demo_cache, trace = [], cacheFile = None\<rparr>
     = (None, \<lparr>zipCache = demo_cache, trace = [], cacheFile = None\<rparr>)"
proof -
  have h: "Map_get (zipCache \<lparr>zipCache = demo_cache, trace = [], cacheFile = None\<rparr>)
             (substring ''00000-1234'' 0 5) = Some None"
    by (simp add: Map_get_def demo_cache_def substring_def)
  show ?thesis
    using h C1_cache_hit_returns_entry_no_remote_call [OF h, of demo_net] by simp
qed

text \<open>
  \<^bold>\<open>Claim C2, as the code has it.\<close> For a zip that is not cached:
  \<^item> when the source answers 404 (the definitive not-found of the geocoding source), the
    call returns \<open>null\<close> and the cache then holds \<open>null\<close> for the zip;
  \<^item> when the request is rejected (a network failure, or the abort after 5000 ms), or
    the response is ok but its payload cannot be read (\<open>response.json()\<close> or the access
    to \<open>data.places\<close> throws), the call returns \<open>null\<close>, the cache and the cache file are
    what they were, and a later call for the same zip on the resulting process sends
    the request again, whatever the source answers that time;
  \<^item> an ok response whose payload can be read is never taken for a transient error,
    however malformed it is: when it lists no place, the call returns \<open>null\<close> and the
    cache then holds \<open>null\<close> for the zip, as for an invalid zip; when it lists a place,
    the call returns the coordinate \<open>parseFloat\<close> reads from it (\<open>NaN\<close> for a missing or
    non-numeric field) and the cache then holds that coordinate. In both cases a later
    call for the same zip returns the cached value and sends no request.

  Claim C10 covers the statuses other than 404.
\<close>

theorem C2_not_found_cached_only_unreadable_payload_retried:
  assumes "\<not> Map_has (zipCache s) (substring zipCode 0 5)"
  shows
   "(let zip5 = substring zipCode 0 5;
         answer = net (trace s @ [Delay 100]) zip5;
         r = fst (getZipCoordinates net zipCode s);
         s' = snd (getZipCoordinates net zipCode s);
         coords = \<lparr>lat = latitude p, lng = longitude p,
                    city = place_name p, state = state_abbreviation p\<rparr>
     in (answer = Response 404 b \<longrightarrow>
            r = None \<and> Map_get (zipCache s') zip5 = Some None) \<and>
        (answer = Rejects why \<or> (answer = Response status BodyThrows \<and> response_ok status) \<longrightarrow>
            r = None \<and> zipCache s' = zipCache s \<and> cacheFile s' = cacheFile s \<and>
            (\<forall>net'. fetches (trace (snd (getZipCoordinates net' zipCode s'))) =
                      fetches (trace s') @ [zip5])) \<and>
        (answer = Response status NoPlaces \<and> response_ok status \<longrightarrow>
            r = None \<and> Map_get (zipCache s') zip5 = Some None \<and>
            (\<forall>net'. getZipCoordinates net' zipCode s' = (None, s'))) \<and>
        (answer = Response status (Places p) \<and> response_ok status \<longrightarrow>
            r = Some coords \<and> Map_get (zipCache s') zip5 = Some (Some coords) \<and>
            (\<forall>net'. getZipCoordinates net' zipCode s' = (Some coords, s'))))"
proof -
  let ?zip5 = "substring zipCode 0 5"
  let ?answer = "net (trace s @ [Delay 100]) ?zip5"
  let ?r = "fst (getZipCoordinates net zipCode s)"
  let ?s' = "snd (getZipCoordinates net zipCode s)"
  let ?coords = "\<lparr>lat = latitude p, lng = longitude p,
                   city = place_name p, state = state_abbreviation p\<rparr>"
  have nf: "?r = None \<and> Map_get (zipCache ?s') ?zip5 = Some None" if "?answer = Response 404 b"
    using that assms
    by (simp add: getZipCoordinates_uncached Let_def response_ok_def Map_get_set)
  have tr: "?r = None \<and> zipCache ?s' = zipCache s \<and> cacheFile ?s' = cacheFile s \<and>
            (\<forall>net'. fetches (trace (snd (getZipCoordinates net' zipCode ?s'))) =
                      fetches (trace ?s') @ [?zip5])"
    if "?answer = Rejects why \<or> (?answer = Response status BodyThrows \<and> response_ok status)"
  proof -
    have s': "?r = None \<and> ?s' = s\<lparr>trace := trace s @ [Delay 100, Fetch ?zip5]\<rparr>"
      using that assms by (auto simp: getZipCoordinates_uncached Let_def)
    then have nc: "\<not> Map_has (zipCache ?s') ?zip5" using assms by simp
    have "\<And>net'. trace (snd (getZipCoordinates net' zipCode ?s')) =
                  trace ?s' @ [Delay 100, Fetch ?zip5]"
      using getZipCoordinates_trace [OF nc] by simp
    then show ?thesis using s' by (simp add: fetches_append fetches_simps)
  qed
  have np: "?r = None \<and> Map_get (zipCache ?s') ?zip5 = Some None \<and>
            (\<forall>net'. getZipCoordinates net' zipCode ?s' = (None, ?s'))"
    if "?answer = Response status NoPlaces \<and> response_ok status"
  proof -
    have c: "?r = None \<and> Map_get (zipCache ?s') ?zip5 = Some None"
      using that assms by (simp add: getZipCoordinates_uncached Let_def Map_get_set)
    then have "\<And>net'. getZipCoordinates net' zipCode ?s' = (None, ?s')"
      by (intro getZipCoordinates_cached) simp
    then show ?thesis using c by simp
  qed
  have pl: "?r = Some ?coords \<and> Map_get (zipCache ?s') ?zip5 = Some (Some ?coords) \<and>
            (\<forall>net'. getZipCoordinates net' zipCode ?s' = (Some ?coords, ?s'))"
    if "?answer = Response status (Places p) \<and> response_ok status"
  proof -
    have c: "?r = Some ?coords \<and> Map_get (zipCache ?s') ?zip5 = Some (Some ?coords)"
      using that assms by (simp add: getZipCoordinates_uncached Let_def Map_get_set)
    then have "\<And>net'. getZipCoordinates net' zipCode ?s' = (Some ?coords, ?s')"
      by (intro getZipCoordinates_cached) simp
    then show ?thesis using c by simp
  qed
  show ?thesis
    unfolding Let_def using nf tr np pl by blast
qed

text \<open>A 404 for \<open>99999\<close> is cached; a timeout for it is not, and the next call asks again;
  an empty list of places for it is cached as \<open>null\<close>, and a place as its coordinate.\<close>

theorem C2_not_found_and_transient_witness:
  "\<not> Map_has (zipCache fresh) (substring ''99999'' 0 5) \<and>
   getZipCoordinates (\<lambda>tr z. Response 404 NoPlaces) ''99999'' fresh =
     (None, \<lparr>zipCache = [(''99999'', None)], trace = [Delay 100, Fetch ''99999''], cacheFile = None\<rparr>) \<and>
   getZipCoordinates (\<lambda>tr z. Rejects AbortedAfter5000ms) ''99999'' fresh =
     (None, \<lparr>zipCache = [], trace = [Delay 100, Fetch ''99999''], cacheFile = None\<rparr>) \<and>
   fetches (trace (snd (getZipCoordinates demo_net ''99999''
       (snd (getZipCoordinates (\<lambda>tr z. Rejects AbortedAfter5000ms) ''99999'' fresh))))) =
     [''99999'', ''99999''] \<and>
   response_ok 200 \<and>
   Map_get (zipCache (snd (getZipCoordinates (\<lambda>tr z. Response 200 NoPlaces) ''99999'' fresh)))
     ''99999'' = Some None \<and>
   fst (getZipCoordinates demo_net ''99999'' fresh) =
     Some \<lparr>lat = Num 40, lng = Num (-80), city = Some ''Somewhere'', state = Some ''OH''\<rparr> \<and>
   Map_get (zipCache (snd (getZipCoordinates demo_net ''99999'' fresh))) ''99999'' =
     Some (Some \<lparr>lat = Num 40, lng = Num (-80), city = Some ''Somewhere'', state = Some ''OH''\<rparr>)"
proof -
  let ?p = "\<lparr>latitude = Num 40, longitude = Num (-80),
              place_name = Some ''Somewhere'', state_abbreviation = Some ''OH''\<rparr>"
  have a: "\<not> Map_has (zipCache fresh) (substring ''99999'' 0 5)"
    by (simp add: fresh_def Map_has_def)
  have d: "substring ''99999'' 0 5 = ''99999''" by (simp add: substring_def)
  have ok: "response_ok 200" by (simp add: response_ok_def)
  note nf = C2_not_found_cached_only_unreadable_payload_retried
              [OF a, where net = "\<lambda>tr z. Response 404 NoPlaces" and b = NoPlaces and why = NetworkFailure
                 and status = 200 and p = ?p]
  note tr = C2_not_found_cached_only_unreadable_payload_retried
              [OF a, where net = "\<lambda>tr z. Rejects AbortedAfter5000ms" and b = NoPlaces
                 and why = AbortedAfter5000ms and status = 200 and p = ?p]
  note np = C2_not_found_cached_only_unreadable_payload_retried
              [OF a, where net = "\<lambda>tr z. Response 200 NoPlaces" and b = NoPlaces and why = NetworkFailure
                 and status = 200 and p = ?p]
  note pl = C2_not_found_cached_only_unreadable_payload_retried
              [OF a, where net = demo_net and b = NoPlaces and why = NetworkFailure
                 and status = 200 and p = ?p]
  have 1: "getZipCoordinates (\<lambda>tr z. Response 404 NoPlaces) ''99999'' fresh =
     (None, \<lparr>zipCache = [(''99999'', None)], trace = [Delay 100, Fetch ''99999''], cacheFile = None\<rparr>)"
    by (simp add: getZipCoordinates_def fresh_def Map_has_def Map_set_def substring_def
          response_ok_def Let_def)
  have 2: "getZipCoordinates (\<lambda>tr z. Rejects AbortedAfter5000ms) ''99999'' fresh =
     (None, \<lparr>zipCache = [], trace = [Delay 100, Fetch ''99999''], cacheFile = None\<rparr>)"
    by (simp add: getZipCoordinates_def fresh_def Map_has_def Map_set_def substring_def
          response_ok_def Let_def)
  have 3: "fetches (trace (snd (getZipCoordinates demo_net ''99999''
       (snd (getZipCoordinates (\<lambda>tr z. Rejects AbortedAfter5000ms) ''99999'' fresh))))) =
       fetches (trace (snd (getZipCoordinates (\<lambda>tr z. Rejects AbortedAfter5000ms) ''99999'' fresh)))
         @ [''99999'']"
    using tr by (simp add: Let_def d)
  have 4: "fst (getZipCoordinates (\<lambda>tr z. Response 404 NoPlaces) ''99999'' fresh) = None"
    using nf by (simp add: Let_def)
  have 5: "Map_get (zipCache (snd (getZipCoordinates (\<lambda>tr z. Response 200 NoPlaces) ''99999'' fresh)))
             ''99999'' = Some None"
    using np ok by (simp add: Let_def d)
  have 6: "fst (getZipCoordinates demo_net ''99999'' fresh) =
             Some \<lparr>lat = Num 40, lng = Num (-80), city = Some ''Somewhere'', state = Some ''OH''\<rparr> \<and>
           Map_get (zipCache (snd (getZipCoordinates demo_net ''99999'' fresh))) ''99999'' =
             Some (Some \<lparr>lat = Num 40, lng = Num (-80), city = Some ''Somewhere'', state = Some ''OH''\<rparr>)"
    using pl ok by (simp add: Let_def d demo_net_def)
  show ?thesis
    using a 1 2 3 4 5 6 ok by (simp add: fetches_simps)
qed

text \<open>The claim as stated fails for a malformed payload that can be read. The source
  answers the request for the zip \<open>44256\<close> with the status 200 and a body without
  places, say \<open>{}\<close>: the call stores \<open>null\<close> for the zip, and the next call, with the
  source working again, returns \<open>null\<close> from the cache and sends no second request. When
  the body lists a place without a numeric latitude, the call returns a coordinate
  whose latitude is \<open>NaN\<close>, and stores it.\<close>

theorem C2_readable_malformed_payload_is_cached_counterexample:
  "getZipCoordinates (\<lambda>tr z. Response 200 NoPlaces) ''44256'' fresh =
     (None, \<lparr>zipCache = [(''44256'', None)], trace = [Delay 100, Fetch ''44256''], cacheFile = None\<rparr>) \<and>
   getZipCoordinates demo_net ''44256''
       (snd (getZipCoordinates (\<lambda>tr z. Response 200 NoPlaces) ''44256'' fresh)) =
     (None, \<lparr>zipCache = [(''44256'', None)], trace = [Delay 100, Fetch ''44256''], cacheFile = None\<rparr>) \<and>
   getZipCoordinates
       (\<lambda>tr z. Response 200 (Places \<lparr>latitude = NaN, longitude = Num (-81.86),
                                     place_name = Some ''Medina'', state_abbreviation = Some ''OH''\<rparr>))
       ''44256'' fresh =
     (Some \<lparr>lat = NaN, lng = Num (-81.86), city = Some ''Medina'', state = Some ''OH''\<rparr>,
      \<lparr>zipCache = [(''44256'',
           Some \<lparr>lat = NaN, lng = Num (-81.86), city = Some ''Medina'', state = Some ''OH''\<rparr>)],
       trace = [Delay 100, Fetch ''44256''], cacheFile = None\<rparr>)"
  by (simp add: getZipCoordinates_def fresh_def Map_has_def Map_get_def Map_set_def substring_def
        response_ok_def or_null_def Let_def)

text \<open>
  \<^bold>\<open>Claim C3, as the code has it.\<close> The check for a short zip is made by the approximate
  lookup only: \<open>getApproximateLocation\<close> returns \<open>null\<close> for every zip of fewer than
  three characters (it is a pure function of the zip: it has no access to the cache or
  the network). \<open>getZipCoordinates\<close> makes no such check: a zip that is not cached is
  sent to the geocoding source whatever its length.
\<close>

theorem C3_short_zip_only_rejected_by_approximate_lookup:
  "(length zipCode < 3 \<longrightarrow> getApproximateLocation zipCode = None) \<and>
   (\<not> Map_has (zipCache s) (substring zipCode 0 5) \<longrightarrow>
      fetches (trace (snd (getZipCoordinates net zipCode s))) =
        fetches (trace s) @ [substring zipCode 0 5])"
  using getZipCoordinates_trace [of s zipCode net]
  by (simp add: getApproximateLocation_def fetches_append fetches_simps)

theorem C3_short_zip_witness:
  "length ''12'' < 3 \<and> getApproximateLocation ''12'' = None \<and>
   \<not> Map_has (zipCache fresh) (substring ''12'' 0 5) \<and>
   fetches (trace (snd (getZipCoordinates (\<lambda>tr z. Response 404 NoPlaces) ''12'' fresh))) = [''12'']"
proof -
  have a: "\<not> Map_has (zipCache fresh) (substring ''12'' 0 5)"
    by (simp add: fresh_def Map_has_def)
  have t0: "trace fresh = []" by (simp add: fresh_def)
  show ?thesis
    using a C3_short_zip_only_rejected_by_approximate_lookup
              [of "''12''" fresh "\<lambda>tr z. Response 404 NoPlaces"]
    by (simp add: t0 fetches_simps substring_def)
qed

text \<open>The claim as stated fails: for the two-digit zip \<open>12\<close>, \<open>getZipCoordinates\<close> waits,
  sends a request and writes the cache.\<close>

theorem C3_short_zip_is_fetched_counterexample:
  "getZipCoordinates (\<lambda>tr z. Response 404 NoPlaces) ''12'' fresh =
     (None, \<lparr>zipCache = [(''12'', None)], trace = [Delay 100, Fetch ''12''], cacheFile = None\<rparr>)"
  by (simp add: getZipCoordinates_def fresh_def Map_has_def Map_set_def substring_def
        response_ok_def Let_def)

text \<open>The check of \<open>getApproximateLocation\<close> counts characters, not digits: a zip whose
  first three characters hold two digits can still be given a coordinate.\<close>

lemma getApproximateLocation_two_digits:
  "getApproximateLocation ''12a45'' = Some (42.0, -71.0)"
  by (simp add: getApproximateLocation_def substring_def parseInt_def is_space_def is_digit_in_def
       digit_of_def digits_value_def ZIP_RANGES_def Number_def rangeBounds_def Let_def)

text \<open>
  \<^bold>\<open>Claim C10.\<close> When the zip is not cached and the request completes with a status
  outside 200 to 299 (a 404, but a 500 or a 429 just as well), \<open>getZipCoordinates\<close>
  returns \<open>null\<close> and stores \<open>null\<close> under the zip, after one wait of 100 ms and one
  request; the body is not looked at. A later call for the same zip on the resulting
  process returns \<open>null\<close> from the cache and sends nothing, whatever the source would
  answer then.
\<close>

theorem C10_non_ok_status_cached_as_null:
  assumes "\<not> Map_has (zipCache s) (substring zipCode 0 5)"
    and "net (trace s @ [Delay 100]) (substring zipCode 0 5) = Response status b"
    and "\<not> response_ok status"
  shows "getZipCoordinates net zipCode s =
           (None, s\<lparr>trace := trace s @ [Delay 100, Fetch (substring zipCode 0 5)],
                    zipCache := Map_set (zipCache s) (substring zipCode 0 5) None\<rparr>) \<and>
         (\<forall>net'. getZipCoordinates net' zipCode (snd (getZipCoordinates net zipCode s)) =
                   (None, snd (getZipCoordinates net zipCode s)))"
proof -
  let ?s' = "s\<lparr>trace := trace s @ [Delay 100, Fetch (substring zipCode 0 5)],
                zipCache := Map_set (zipCache s) (substring zipCode 0 5) None\<rparr>"
  have 1: "getZipCoordinates net zipCode s = (None, ?s')"
    using assms by (simp add: getZipCoordinates_uncached Let_def)
  have "Map_get (zipCache ?s') (substring zipCode 0 5) = Some None"
    by (simp add: Map_get_set)
  then have "\<And>net'. getZipCoordinates net' zipCode ?s' = (None, ?s')"
    by (rule getZipCoordinates_cached)
  with 1 show ?thesis by simp
qed

theorem C10_non_ok_status_witness:
  "\<not> Map_has (zipCache fresh) (substring ''44256'' 0 5) \<and>
   \<not> response_ok 500 \<and>
   getZipCoordinates (\<lambda>tr z. Response 500 BodyThrows) ''44256'' fresh =
     (None, \<lparr>zipCache = [(''44256'', None)], trace = [Delay 100, Fetch ''44256''], cacheFile = None\<rparr>) \<and>
   getZipCoordinates demo_net ''44256''
       \<lparr>zipCache = [(''44256'', None)], trace = [Delay 100, Fetch ''44256''], cacheFile = None\<rparr> =
     (None, \<lparr>zipCache = [(''44256'', None)], trace = [Delay 100, Fetch ''44256''], cacheFile = None\<rparr>)"
proof -
  have a: "\<not> Map_has (zipCache fresh) (substring ''44256'' 0 5)"
    by (simp add: fresh_def Map_has_def)
  have b: "(\<lambda>tr z. Response 500 BodyThrows) (trace fresh @ [Delay 100]) (substring ''44256'' 0 5)
             = Response 500 BodyThrows"
    by simp
  have c: "\<not> response_ok 500" by (simp add: response_ok_def)
  have d: "substring ''44256'' 0 5 = ''44256''" by (simp add: substring_def)
  note inst = C10_non_ok_status_cached_as_null [OF a b c]
  have e: "getZipCoordinates (\<lambda>tr z. Response 500 BodyThrows) ''44256'' fresh =
     (None, \<lparr>zipCache = [(''44256'', None)], trace = [Delay 100, Fetch ''44256''], cacheFile = None\<rparr>)"
    using inst by (simp add: d fresh_def Map_set_def)
  have "getZipCoordinates demo_net ''44256''
          (snd (getZipCoordinates (\<lambda>tr z. Response 500 BodyThrows) ''44256'' fresh)) =
        (None, snd (getZipCoordinates (\<lambda>tr z. Response 500 BodyThrows) ''44256'' fresh))"
    using inst by blast
  then show ?thesis
    using a c e by simp
qed

subsection \<open>The batch: importData's pre-fetch\<close>

lemma fetchLoop_trace:
  assumes "distinct zs" "\<forall>z\<in>set zs. \<not> Map_has (zipCache s) z \<and> substring z 0 5 = z"
  shows "trace (snd (snd (fetchLoop net zs (a, b, s)))) =
         trace s @ concat (map (\<lambda>z. [Delay 100, Fetch z]) zs)"
  using assms
proof (induction zs arbitrary: a b s)
  case Nil
  then show ?case by simp
next
  case (Cons z zs)
  from Cons.prems have nz: "\<not> Map_has (zipCache s) (substring z 0 5)" and zz: "substring z 0 5 = z"
    by simp_all
  obtain r s' where g: "getZipCoordinates net z s = (r, s')"
    by (cases "getZipCoordinates net z s") auto
  have tr: "trace s' = trace s @ [Delay 100, Fetch z]"
    using getZipCoordinates_trace [OF nz, of net] g zz by simp
  have keys: "\<And>k. Map_has (zipCache s') k \<Longrightarrow> k = z \<or> Map_has (zipCache s) k"
    using getZipCoordinates_keys [of net z s] g zz by simp
  have d: "distinct zs" using Cons.prems by simp
  have inv: "\<forall>y\<in>set zs. \<not> Map_has (zipCache s') y \<and> substring y 0 5 = y"
    using Cons.prems keys by auto
  have step: "fetchLoop net (z # zs) (a, b, s) =
      (case r of Some coords \<Rightarrow> fetchLoop net zs (a + 1, b, s')
               | None \<Rightarrow> fetchLoop net zs (a, b + 1, s'))"
    by (simp add: g split: option.splits)
  show ?case
    unfolding step using Cons.IH [OF d inv] by (cases r) (simp_all add: tr)
qed

lemma uniqueZips_fold_inv:
  assumes "distinct u" "\<forall>z\<in>set u. length z \<le> 5"
  shows "distinct (fold (\<lambda>zipCode u. if zipCode \<noteq> [] then Set_add u (substring zipCode 0 5) else u) rows u) \<and>
     (\<forall>z\<in>set (fold (\<lambda>zipCode u. if zipCode \<noteq> [] then Set_add u (substring zipCode 0 5) else u) rows u).
        length z \<le> 5)"
  using assms
proof (induction rows arbitrary: u)
  case Nil
  then show ?case by simp
next
  case (Cons r rows)
  show ?case
  proof (cases "r = []")
    case True
    then show ?thesis using Cons.IH [of u] Cons.prems by simp
  next
    case False
    have "distinct (Set_add u (substring r 0 5))"
      "\<forall>z\<in>set (Set_add u (substring r 0 5)). length z \<le> 5"
      using Cons.prems by (auto simp: Set_add_def substring_def)
    from Cons.IH [OF this] show ?thesis using False by simp
  qed
qed

lemma uniqueZips_distinct: "distinct (uniqueZips rows)"
  using uniqueZips_fold_inv [of "[]" rows] by (simp add: uniqueZips_def)

lemma uniqueZips_length: "z \<in> set (uniqueZips rows) \<Longrightarrow> substring z 0 5 = z"
  using uniqueZips_fold_inv [of "[]" rows] by (simp add: uniqueZips_def substring_def)

lemma trace_saveZipCache: "trace (saveZipCache s) = trace s"
  by (simp add: saveZipCache_def Let_def)

lemma trace_loadZipCache: "trace (loadZipCache s) = trace s"
  by (simp add: loadZipCache_def split: option.splits file_content.splits)

lemma importData_prefetch_trace:
  "trace (importData_prefetch net rows s0) =
     trace s0 @ concat (map (\<lambda>z. [Delay 100, Fetch z]) (uncachedZips rows (loadZipCache s0)))"
proof -
  let ?s = "loadZipCache s0"
  let ?u = "uncachedZips rows ?s"
  have d: "distinct ?u" by (simp add: uncachedZips_def uniqueZips_distinct)
  have inv: "\<forall>z\<in>set ?u. \<not> Map_has (zipCache ?s) z \<and> substring z 0 5 = z"
    by (auto simp: uncachedZips_def uniqueZips_length)
  obtain f g s' where fl: "fetchLoop net ?u (0, 0, ?s) = (f, g, s')"
    by (cases "fetchLoop net ?u (0, 0, ?s)") auto
  have "trace s' = trace ?s @ concat (map (\<lambda>z. [Delay 100, Fetch z]) ?u)"
    using fetchLoop_trace [OF d inv, of net 0 0] fl by simp
  then show ?thesis
    by (cases "?u = []")
       (simp_all add: importData_prefetch_def Let_def fl trace_saveZipCache trace_loadZipCache)
qed

lemma demo_unique: "uniqueZips demo_rows =
   [''44256'', ''44289'', ''10001'', ''90210'', ''33139'', ''60601'', ''00000'', ''99999'', ''73301'', ''02134'']"
  by (simp add: uniqueZips_def demo_rows_def Set_add_def substring_def)

lemma demo_loaded:
  "zipCache (loadZipCache (fresh\<lparr>cacheFile := Some (JsonObject demo_cache)\<rparr>)) = demo_cache"
  by (simp add: loadZipCache_def fresh_def demo_cache_def Map_set_def)

lemma demo_uncached:
  "uncachedZips demo_rows (loadZipCache (fresh\<lparr>cacheFile := Some (JsonObject demo_cache)\<rparr>)) =
   [''44289'', ''90210'', ''33139'', ''60601'', ''99999'', ''73301'', ''02134'']"
  by (simp add: uncachedZips_def demo_unique demo_loaded) (simp add: demo_cache_def Map_has_def)

text \<open>
  \<^bold>\<open>Claim C4, as the code has it.\<close> \<open>importData\<close> loads the cache, collects the \<open>n\<close>
  unique zips of the rows and calls \<open>getZipCoordinates\<close> once for each of the \<open>n - k\<close> that
  the loaded cache does not have. What this adds to the log is exactly one pair
  \<open>Delay 100, Fetch z\<close> per uncached zip \<open>z\<close>, in order: \<open>n - k\<close> requests, no zip asked
  twice, each request right after a wait of 100 ms, whatever the source answers. The
  wait is made by \<open>getZipCoordinates\<close> itself, so a single call outside a batch, for
  a zip that is not cached, waits the same 100 ms before its request; only a cache hit
  makes no wait (claim C1).
\<close>

theorem C4_batch_issues_one_delayed_call_per_uncached_zip:
  "(let s = loadZipCache s0;
        unique = uniqueZips rows;
        cached = filter (Map_has (zipCache s)) unique;
        uncached = uncachedZips rows s;
        s' = importData_prefetch net rows s0
    in trace s' = trace s0 @ concat (map (\<lambda>z. [Delay 100, Fetch z]) uncached) \<and>
       fetches (trace s') = fetches (trace s0) @ uncached \<and>
       distinct uncached \<and>
       length uncached = length unique - length cached) \<and>
   (\<not> Map_has (zipCache s1) (substring z 0 5) \<longrightarrow>
      trace (snd (getZipCoordinates net1 z s1)) = trace s1 @ [Delay 100, Fetch (substring z 0 5)])"
proof -
  let ?s = "loadZipCache s0"
  let ?unique = "uniqueZips rows"
  have 1: "trace (importData_prefetch net rows s0) =
     trace s0 @ concat (map (\<lambda>z. [Delay 100, Fetch z]) (uncachedZips rows ?s))"
    by (rule importData_prefetch_trace)
  have 2: "fetches (trace (importData_prefetch net rows s0)) = fetches (trace s0) @ uncachedZips rows ?s"
    by (simp add: 1 fetches_append fetches_pairs)
  have 3: "distinct (uncachedZips rows ?s)"
    by (simp add: uncachedZips_def uniqueZips_distinct)
  have "length (filter (Map_has (zipCache ?s)) ?unique) + length (uncachedZips rows ?s) = length ?unique"
    unfolding uncachedZips_def by (rule sum_length_filter_compl)
  then have 4: "length (uncachedZips rows ?s) =
      length ?unique - length (filter (Map_has (zipCache ?s)) ?unique)"
    by simp
  have 5: "\<not> Map_has (zipCache s1) (substring z 0 5) \<longrightarrow>
      trace (snd (getZipCoordinates net1 z s1)) = trace s1 @ [Delay 100, Fetch (substring z 0 5)]"
    using getZipCoordinates_trace [of s1 z net1] by auto
  show ?thesis
    using 1 2 3 4 5 by (simp add: Let_def)
qed

text \<open>The spec's example: ten unique zips, three of them cached, seven requests.\<close>

theorem C4_batch_witness:
  "length (uniqueZips demo_rows) = 10 \<and>
   length (filter (Map_has (zipCache (loadZipCache (fresh\<lparr>cacheFile := Some (JsonObject demo_cache)\<rparr>))))
             (uniqueZips demo_rows)) = 3 \<and>
   fetches (trace (importData_prefetch demo_net demo_rows (fresh\<lparr>cacheFile := Some (JsonObject demo_cache)\<rparr>))) =
     [''44289'', ''90210'', ''33139'', ''60601'', ''99999'', ''73301'', ''02134''] \<and>
   \<not> Map_has (zipCache fresh) (substring ''44256'' 0 5) \<and>
   trace (snd (getZipCoordinates demo_net ''44256'' fresh)) = [Delay 100, Fetch ''44256'']"
proof -
  have a: "length (uniqueZips demo_rows) = 10" by (simp add: demo_unique)
  have b: "length (filter (Map_has (zipCache (loadZipCache (fresh\<lparr>cacheFile := Some (JsonObject demo_cache)\<rparr>))))
             (uniqueZips demo_rows)) = 3"
    by (simp add: demo_unique demo_loaded) (simp add: demo_cache_def Map_has_def)
  have c: "\<not> Map_has (zipCache fresh) (substring ''44256'' 0 5)"
    by (simp add: fresh_def Map_has_def)
  have t0: "trace (fresh\<lparr>cacheFile := Some (JsonObject demo_cache)\<rparr>) = []" "trace fresh = []"
    by (simp_all add: fresh_def)
  show ?thesis
    using a b c
      C4_batch_issues_one_delayed_call_per_uncached_zip
        [of "fresh\<lparr>cacheFile := Some (JsonObject demo_cache)\<rparr>" demo_rows demo_net fresh "''44256''" demo_net]
    by (simp add: Let_def demo_uncached t0 fetches_simps substring_def)
qed

text \<open>The claim's last part fails: one isolated lookup of a zip that is not cached waits
  100 ms before it sends its request.\<close>

theorem C4_single_lookup_is_delayed_counterexample:
  "trace (snd (getZipCoordinates demo_net ''44256'' fresh)) = [Delay 100, Fetch ''44256'']"
  by (simp add: getZipCoordinates_def fresh_def Map_has_def substring_def demo_net_def
        response_ok_def Let_def)

subsection \<open>The approximate lookup\<close>

lemma ZIP_RANGES_bounds:
  "map (\<lambda>e. rangeBounds (fst e)) ZIP_RANGES =
     [Some (10, 27), Some (28, 29), Some (30, 38), Some (39, 49), Some (50, 59), Some (60, 69),
      Some (70, 89), Some (100, 149), Some (150, 196), Some (197, 199), Some (200, 205), Some
      (220, 246), Some (247, 268), Some (270, 289), Some (290, 299), Some (300, 319), Some (320,
      339), Some (340, 349), Some (350, 369), Some (370, 385), Some (386, 397), Some (398, 399),
      Some (400, 427), Some (430, 432), Some (433, 436), Some (437, 438), Some (440, 449), Some
      (450, 458), Some (460, 469), Some (470, 479), Some (480, 499), Some (500, 528), Some (530,
      549), Some (550, 567), Some (570, 577), Some (580, 588), Some (590, 599), Some (600, 629),
      Some (630, 658), Some (660, 679), Some (680, 699), Some (700, 714), Some (715, 729), Some
      (730, 749), Some (750, 759), Some (760, 769), Some (770, 779), Some (780, 789), Some (790,
      799), Some (800, 816), Some (820, 831), Some (832, 838), Some (840, 847), Some (850, 865),
      Some (870, 884), Some (885, 895), Some (900, 918), Some (919, 921), Some (922, 928), Some
      (930, 935), Some (936, 966), Some (967, 968), Some (970, 979), Some (980, 994), Some (995,
      999)]"
  by (simp add: ZIP_RANGES_def rangeBounds_def Number_def is_digit_in_def digit_of_def digits_value_def)

lemma ZIP_RANGES_sorted: "sorted_wrt (\<lambda>a b. range_below (fst a) (fst b)) ZIP_RANGES"
proof -
  have "sorted_wrt bounds_below (map (\<lambda>e. rangeBounds (fst e)) ZIP_RANGES)"
    unfolding ZIP_RANGES_bounds by (simp add: bounds_below_def)
  then show ?thesis
    by (simp add: sorted_wrt_map range_below_def)
qed

lemma is_digit_in_10: "is_digit_in 10 c = (48 \<le> (of_char c :: nat) \<and> (of_char c :: nat) \<le> 57)"
  by (auto simp: is_digit_in_def digit_of_def Let_def)

lemma takeWhile_all: "list_all P xs \<Longrightarrow> takeWhile P xs = xs"
  by (induction xs) simp_all

lemma parseInt_decimal:
  assumes "s \<noteq> []" "list_all (is_digit_in 10) s"
  shows "parseInt s = Some (int (digits_value 10 s))"
proof -
  obtain c cs where s: "s = c # cs" using assms(1) by (cases s) auto
  have c: "48 \<le> (of_char c :: nat)" "(of_char c :: nat) \<le> 57"
    using assms(2) s by (simp_all add: is_digit_in_10)
  have nospace: "\<not> is_space c" using c by (auto simp: is_space_def)
  have nosign: "c \<noteq> CHR ''-''" "c \<noteq> CHR ''+''" using c by auto
  have nohex: "take 2 s \<noteq> ''0x''" "take 2 s \<noteq> ''0X''"
  proof -
    show "take 2 s \<noteq> ''0x''"
    proof (cases cs)
      case Nil then show ?thesis using s by simp
    next
      case (Cons d ds)
      then have "48 \<le> (of_char d :: nat) \<and> (of_char d :: nat) \<le> 57"
        using assms(2) s by (simp add: is_digit_in_10)
      then have "d \<noteq> CHR ''x''" by auto
      then show ?thesis using s Cons by simp
    qed
    show "take 2 s \<noteq> ''0X''"
    proof (cases cs)
      case Nil then show ?thesis using s by simp
    next
      case (Cons d ds)
      then have "48 \<le> (of_char d :: nat) \<and> (of_char d :: nat) \<le> 57"
        using assms(2) s by (simp add: is_digit_in_10)
      then have "d \<noteq> CHR ''X''" by auto
      then show ?thesis using s Cons by simp
    qed
  qed
  have dw: "dropWhile is_space s = s" using s nospace by simp
  have sg: "(take 1 s = ''-'') = False" "(take 1 s = ''+'') = False" using s nosign by simp_all
  have hx: "(take 2 s = ''0x'') = False" "(take 2 s = ''0X'') = False" using nohex by simp_all
  have tw: "takeWhile (is_digit_in 10) s = s" using assms(2) by (rule takeWhile_all)
  have "parseInt s = (if s = [] then None else Some (1 * int (digits_value 10 s)))"
    by (simp only: parseInt_def Let_def dw sg hx simp_thms if_False tw)
  then show ?thesis using assms(1) by simp
qed

lemma scanRanges_skip:
  assumes "\<not> in_range k0 p"
  shows "scanRanges p ((k0, c0) # rest) = scanRanges p rest"
proof (cases "rangeBounds k0")
  case None
  then show ?thesis by simp
next
  case (Some b)
  then show ?thesis using assms by (cases b) (auto simp: in_range_def)
qed

lemma scanRanges_hit:
  assumes "in_range k0 p"
  shows "scanRanges p ((k0, c0) # rest) = Some c0"
proof (cases "rangeBounds k0")
  case None
  then show ?thesis using assms by (simp add: in_range_def)
next
  case (Some b)
  then show ?thesis using assms by (cases b) (auto simp: in_range_def)
qed

lemma scanRanges_found:
  assumes "sorted_wrt (\<lambda>a b. range_below (fst a) (fst b)) table"
    and "(key, c) \<in> set table" and "in_range key p"
  shows "scanRanges p table = Some c"
  using assms
proof (induction table)
  case Nil
  then show ?case by simp
next
  case (Cons e rest)
  obtain k0 c0 where e: "e = (k0, c0)" by (cases e) auto
  show ?case
  proof (cases "(key, c) = e")
    case True
    then show ?thesis using Cons.prems(3) e scanRanges_hit [of key p c rest]
      by auto
  next
    case False
    then have mem: "(key, c) \<in> set rest" using Cons.prems(2) by simp
    have below: "range_below k0 key" using Cons.prems(1) mem e by auto
    have srt: "sorted_wrt (\<lambda>a b. range_below (fst a) (fst b)) rest" using Cons.prems(1) by simp
    have miss: "\<not> in_range k0 p"
      using below Cons.prems(3)
      by (auto simp: range_below_def bounds_below_def in_range_def split: option.splits)
    have "scanRanges p (e # rest) = scanRanges p rest"
      unfolding e using miss by (rule scanRanges_skip)
    then show ?thesis using Cons.IH [OF srt mem Cons.prems(3)] by simp
  qed
qed

lemma scanRanges_none:
  assumes "\<forall>e\<in>set table. \<not> in_range (fst e) p"
  shows "scanRanges p table = None"
  using assms
proof (induction table)
  case Nil
  then show ?case by simp
next
  case (Cons e rest)
  obtain k0 c0 where e: "e = (k0, c0)" by (cases e) auto
  have "\<not> in_range k0 p" using Cons.prems e by simp
  then have "scanRanges p (e # rest) = scanRanges p rest"
    unfolding e by (rule scanRanges_skip)
  then show ?case using Cons by simp
qed

lemma in_range_unique:
  fixes table :: "(string \<times> real \<times> real) list"
  assumes "sorted_wrt (\<lambda>a b. range_below (fst a) (fst b)) table"
    and "(k1, c1) \<in> set table" "in_range k1 p" "(k2, c2) \<in> set table" "in_range k2 p"
  shows "c1 = c2"
  using scanRanges_found [OF assms(1) assms(2) assms(3)] scanRanges_found [OF assms(1) assms(4) assms(5)]
  by simp

text \<open>
  \<^bold>\<open>Claim C8.\<close> In the order of the table, the range of every entry lies entirely below
  the range of every later entry (each range is well formed, \<open>start \<le> end\<close>, and ends
  before the next one starts): the ranges are pairwise disjoint and strictly ordered by
  their start. For a zip of at least three characters whose first three are decimal
  digits, with \<open>p\<close> the number they spell: when \<open>p\<close> lies in the range of an entry of the
  table, \<open>getApproximateLocation\<close> returns that entry's coordinate (so no two ranges
  that hold \<open>p\<close> differ in it), and when \<open>p\<close> lies in no range it returns \<open>null\<close>.
\<close>

theorem C8_ranges_disjoint_ordered_and_lookup_finds_the_range:
  "sorted_wrt (\<lambda>a b. range_below (fst a) (fst b)) ZIP_RANGES \<and>
   (length zipCode \<ge> 3 \<and> list_all (is_digit_in 10) (substring zipCode 0 3) \<longrightarrow>
      (let p = int (digits_value 10 (substring zipCode 0 3)) in
        (\<forall>key c. (key, c) \<in> set ZIP_RANGES \<and> in_range key p \<longrightarrow>
            getApproximateLocation zipCode = Some c) \<and>
        ((\<forall>e\<in>set ZIP_RANGES. \<not> in_range (fst e) p) \<longrightarrow> getApproximateLocation zipCode = None)))"
proof -
  have srt: "sorted_wrt (\<lambda>a b. range_below (fst a) (fst b)) ZIP_RANGES" by (rule ZIP_RANGES_sorted)
  have look: "(\<forall>key c. (key, c) \<in> set ZIP_RANGES \<and> in_range key (int (digits_value 10 (substring zipCode 0 3))) \<longrightarrow>
            getApproximateLocation zipCode = Some c) \<and>
        ((\<forall>e\<in>set ZIP_RANGES. \<not> in_range (fst e) (int (digits_value 10 (substring zipCode 0 3)))) \<longrightarrow>
            getApproximateLocation zipCode = None)"
    if len: "length zipCode \<ge> 3" and dig: "list_all (is_digit_in 10) (substring zipCode 0 3)"
  proof -
    have ne: "substring zipCode 0 3 \<noteq> []" using len by (auto simp: substring_def)
    have pi: "parseInt (substring zipCode 0 3) = Some (int (digits_value 10 (substring zipCode 0 3)))"
      using ne dig by (rule parseInt_decimal)
    have g: "getApproximateLocation zipCode =
               scanRanges (int (digits_value 10 (substring zipCode 0 3))) ZIP_RANGES"
      using len by (auto simp: getApproximateLocation_def pi)
    show ?thesis
      unfolding g using scanRanges_found [OF srt] scanRanges_none by blast
  qed
  show ?thesis
    using srt look by (simp add: Let_def)
qed

lemma no_range_iff:
  "(\<forall>e\<in>set table. \<not> in_range (fst e) p) =
   list_all (\<lambda>b. case b of Some (s, e) \<Rightarrow> \<not> (s \<le> p \<and> p \<le> e) | None \<Rightarrow> True)
     (map (\<lambda>e. rangeBounds (fst e)) table)"
  by (induction table) (auto simp: in_range_def split: option.splits)

lemma getApproximateLocation_00000: "getApproximateLocation ''00000'' = None"
proof -
  have "parseInt (substring ''00000'' 0 3) = Some (int (digits_value 10 (substring ''00000'' 0 3)))"
    by (intro parseInt_decimal) (simp_all add: substring_def is_digit_in_10)
  moreover have "int (digits_value 10 (substring ''00000'' 0 3)) = 0"
    by (simp add: substring_def digits_value_def digit_of_def)
  moreover have "\<forall>e\<in>set ZIP_RANGES. \<not> in_range (fst e) 0"
    unfolding no_range_iff ZIP_RANGES_bounds by simp
  ultimately show ?thesis
    by (simp add: getApproximateLocation_def scanRanges_none)
qed

text \<open>\<open>44256\<close> has the prefix 442, in the range 440 to 449; the prefix 0 of \<open>00000\<close> is in no range.\<close>

theorem C8_lookup_witness:
  "length ''44256'' \<ge> 3 \<and> list_all (is_digit_in 10) (substring ''44256'' 0 3) \<and>
   int (digits_value 10 (substring ''44256'' 0 3)) = 442 \<and>
   (''440-449'', (41.5, -81.7)) \<in> set ZIP_RANGES \<and> in_range ''440-449'' 442 \<and>
   getApproximateLocation ''44256'' = Some (41.5, -81.7) \<and>
   int (digits_value 10 (substring ''00000'' 0 3)) = 0 \<and>
   getApproximateLocation ''00000'' = None"
proof -
  have a: "length ''44256'' \<ge> 3 \<and> list_all (is_digit_in 10) (substring ''44256'' 0 3)"
    by (simp add: substring_def is_digit_in_10)
  have p: "int (digits_value 10 (substring ''44256'' 0 3)) = 442"
    by (simp add: substring_def digits_value_def digit_of_def)
  have m: "(''440-449'', (41.5, -81.7)) \<in> set ZIP_RANGES"
    by (simp add: ZIP_RANGES_def)
  have r: "in_range ''440-449'' 442"
    by (simp add: in_range_def rangeBounds_def Number_def is_digit_in_def digit_of_def digits_value_def)
  have a0: "length ''00000'' \<ge> 3 \<and> list_all (is_digit_in 10) (substring ''00000'' 0 3)"
    by (simp add: substring_def is_digit_in_10)
  have p0: "int (digits_value 10 (substring ''00000'' 0 3)) = 0"
    by (simp add: substring_def digits_value_def digit_of_def)
  have n0: "\<forall>e\<in>set ZIP_RANGES. \<not> in_range (fst e) 0"
    unfolding no_range_iff ZIP_RANGES_bounds by simp
  have 1: "getApproximateLocation ''44256'' = Some (41.5, -81.7)"
    using C8_ranges_disjoint_ordered_and_lookup_finds_the_range [of "''44256''"] a m r by (simp add: p Let_def)
  have 2: "getApproximateLocation ''00000'' = None"
    using C8_ranges_disjoint_ordered_and_lookup_finds_the_range [of "''00000''"] a0 n0 by (simp add: p0 Let_def)
  show ?thesis using a p m r p0 1 2 by simp
qed

subsection \<open>The cache file\<close>

lemma update_fresh_key: "k \<notin> fst ` set al \<Longrightarrow> AList.update k v al = al @ [(k, v)]"
  by (induction al) auto

lemma fold_object_set:
  assumes "distinct (map fst m)" "fst ` set acc \<inter> fst ` set m = {}" "''__proto__'' \<notin> fst ` set m"
  shows "fold (\<lambda>(zip, coords) data. object_set data zip coords) m acc = acc @ m"
  using assms
proof (induction m arbitrary: acc)
  case Nil
  then show ?case by simp
next
  case (Cons e m)
  obtain k v where e: "e = (k, v)" by (cases e) auto
  have k: "k \<notin> fst ` set acc" "k \<noteq> ''__proto__''" using Cons.prems e by auto
  then have step: "object_set acc k v = acc @ [(k, v)]"
    by (simp add: object_set_def update_fresh_key)
  have "fold (\<lambda>(zip, coords) data. object_set data zip coords) m (acc @ [(k, v)]) = (acc @ [(k, v)]) @ m"
    using Cons.prems e by (intro Cons.IH) auto
  then show ?case using e step by simp
qed

lemma fold_Map_set:
  assumes "distinct (map fst m)" "fst ` set acc \<inter> fst ` set m = {}"
  shows "fold (\<lambda>(zip, coords) c. Map_set c zip coords) m acc = acc @ m"
  using assms
proof (induction m arbitrary: acc)
  case Nil
  then show ?case by simp
next
  case (Cons e m)
  obtain k v where e: "e = (k, v)" by (cases e) auto
  have k: "k \<notin> fst ` set acc" using Cons.prems e by auto
  then have step: "Map_set acc k v = acc @ [(k, v)]"
    by (simp add: Map_set_def update_fresh_key)
  have "fold (\<lambda>(zip, coords) c. Map_set c zip coords) m (acc @ [(k, v)]) = (acc @ [(k, v)]) @ m"
    using Cons.prems e by (intro Cons.IH) auto
  then show ?case using e step by simp
qed

lemma JSON_coords_finite: "finite_coords v \<Longrightarrow> map_option JSON_coords v = v"
  by (cases v)
     (auto simp: finite_coords_def is_finite_def JSON_coords_def JSON_number_def split: number.splits)

lemma JSON_entries_finite:
  "list_all (\<lambda>e. finite_coords (snd e)) m \<Longrightarrow> map (\<lambda>(k, v). (k, map_option JSON_coords v)) m = m"
  by (induction m) (auto simp: JSON_coords_finite)

lemma keys_of_JSON_entries:
  "map fst (map (\<lambda>(k, v). (k, map_option JSON_coords v)) m) = map fst m"
  by (induction m) auto

lemma saved_then_loaded:
  assumes "distinct (map fst (zipCache s))" "''__proto__'' \<notin> fst ` set (zipCache s)"
  shows "zipCache (loadZipCache (restart (saveZipCache s))) =
         map (\<lambda>(k, v). (k, map_option JSON_coords v)) (zipCache s)"
proof -
  let ?m = "zipCache s"
  let ?w = "map (\<lambda>(k, v). (k, map_option JSON_coords v)) ?m"
  have data: "fold (\<lambda>(zip, coords) data. object_set data zip coords) ?m [] = ?m"
    using fold_object_set [OF assms(1) _ assms(2), of "[]"] by simp
  have saved: "cacheFile (saveZipCache s) = Some (JsonObject ?w)"
    by (simp add: saveZipCache_def Let_def data JSON_stringify_def)
  have "distinct (map fst ?w)" using assms(1) by (simp only: keys_of_JSON_entries)
  then have "fold (\<lambda>(zip, coords) c. Map_set c zip coords) ?w [] = ?w"
    using fold_Map_set [of ?w "[]"] by simp
  then show ?thesis
    by (simp add: loadZipCache_def restart_def saved)
qed

text \<open>
  \<^bold>\<open>Claim C9, as the code has it.\<close> Take a cache with no entry under the key
  \<open>__proto__\<close> (and whose keys are unique, as those of a \<open>Map\<close> are). After
  \<open>saveZipCache\<close>, a process that starts with an empty cache and runs \<open>loadZipCache\<close>
  has, under every key, what the saved cache had there after its passage through JSON:
  no entry where there was none, \<open>null\<close> for the \<open>null\<close> of a confirmed-invalid zip, and
  a coordinate with its \<open>lat\<close> and \<open>lng\<close> kept when they are finite numbers and replaced by
  \<open>null\<close> when they are \<open>NaN\<close> or infinite. So when all stored coordinates are finite,
  the loaded cache holds under every key exactly what the saved one held.
\<close>

theorem C9_save_then_load_reproduces_finite_cache:
  assumes "distinct (map fst (zipCache s))" "''__proto__'' \<notin> fst ` set (zipCache s)"
  shows "Map_get (zipCache (loadZipCache (restart (saveZipCache s)))) k =
           map_option (map_option JSON_coords) (Map_get (zipCache s) k) \<and>
         (list_all (\<lambda>e. finite_coords (snd e)) (zipCache s) \<longrightarrow>
            Map_get (zipCache (loadZipCache (restart (saveZipCache s)))) k = Map_get (zipCache s) k)"
proof -
  have 1: "Map_get (zipCache (loadZipCache (restart (saveZipCache s)))) k =
           map_option (map_option JSON_coords) (Map_get (zipCache s) k)"
    by (simp add: saved_then_loaded [OF assms] Map_get_def map_of_map)
  have 2: "Map_get (zipCache (loadZipCache (restart (saveZipCache s)))) k = Map_get (zipCache s) k"
    if "list_all (\<lambda>e. finite_coords (snd e)) (zipCache s)"
    by (simp add: saved_then_loaded [OF assms] JSON_entries_finite [OF that])
  show ?thesis using 1 2 by blast
qed

theorem C9_round_trip_witness:
  "distinct (map fst demo_cache) \<and> ''__proto__'' \<notin> fst ` set demo_cache \<and>
   list_all (\<lambda>e. finite_coords (snd e)) demo_cache \<and>
   Map_get (zipCache (loadZipCache (restart (saveZipCache
       \<lparr>zipCache = demo_cache, trace = [], cacheFile = None\<rparr>)))) ''00000'' = Some None \<and>
   Map_get demo_cache ''00000'' = Some None"
proof -
  have a: "distinct (map fst (zipCache \<lparr>zipCache = demo_cache, trace = [], cacheFile = None\<rparr>))"
    by (simp add: demo_cache_def)
  have b: "''__proto__'' \<notin> fst ` set (zipCache \<lparr>zipCache = demo_cache, trace = [], cacheFile = None\<rparr>)"
    by (simp add: demo_cache_def)
  have c: "list_all (\<lambda>e. finite_coords (snd e)) demo_cache"
    by (simp add: demo_cache_def finite_coords_def is_finite_def)
  have d: "Map_get demo_cache ''00000'' = Some None"
    by (simp add: Map_get_def demo_cache_def)
  show ?thesis
    using a b c d C9_save_then_load_reproduces_finite_cache [OF a b, of "''00000''"] by simp
qed

text \<open>The claim as stated fails: \<open>JSON.stringify\<close> writes a \<open>NaN\<close> coordinate (what
  \<open>parseFloat\<close> gives \<open>getZipCoordinates\<close> for a place without a numeric latitude) as
  \<open>null\<close>, and \<open>null\<close> is what \<open>loadZipCache\<close> puts back.\<close>

theorem C9_nan_not_reproduced_counterexample:
  "Map_get (zipCache (loadZipCache (restart (saveZipCache
      \<lparr>zipCache = [(''12345'', Some \<lparr>lat = NaN, lng = NaN, city = None, state = None\<rparr>)],
        trace = [], cacheFile = None\<rparr>)))) ''12345''
     = Some (Some \<lparr>lat = JsonNull, lng = JsonNull, city = None, state = None\<rparr>) \<and>
   Map_get [(''12345'', Some \<lparr>lat = NaN, lng = NaN, city = None, state = None\<rparr>)] ''12345''
     = Some (Some \<lparr>lat = NaN, lng = NaN, city = None, state = None\<rparr>) \<and>
   \<lparr>lat = JsonNull, lng = JsonNull, city = None, state = None\<rparr>
     \<noteq> \<lparr>lat = NaN, lng = NaN, city = None, state = None\<rparr>"
  by (simp add: saveZipCache_def loadZipCache_def restart_def object_set_def JSON_stringify_def
        JSON_coords_def JSON_number_def Map_set_def Map_get_def Let_def)

text \<open>The order in which \<open>Object.entries\<close> lists the entries of the parsed file does not
  matter for what the loaded cache holds.\<close>

lemma fold_Map_set_content:
  "map_of (fold (\<lambda>(zip, coords) c. Map_set c zip coords) es acc) = map_of acc ++ map_of (rev es)"
proof (induction es arbitrary: acc)
  case Nil
  then show ?case by simp
next
  case (Cons e es)
  obtain k v where e: "e = (k, v)" by (cases e) auto
  have "map_of (fold (\<lambda>(zip, coords) c. Map_set c zip coords) es (Map_set acc k v)) =
        map_of (Map_set acc k v) ++ map_of (rev es)"
    by (rule Cons.IH)
  also have "\<dots> = map_of acc ++ map_of (rev es @ [(k, v)])"
    by (auto simp: Map_set_def update_conv' fun_eq_iff map_add_def split: option.splits)
  finally show ?case using e by simp
qed

lemma loadZipCache_order_independent:
  assumes "distinct (map fst es)" "distinct (map fst es')" "set es = set es'"
  shows "Map_get (zipCache (loadZipCache (s\<lparr>cacheFile := Some (JsonObject es')\<rparr>))) k =
         Map_get (zipCache (loadZipCache (s\<lparr>cacheFile := Some (JsonObject es)\<rparr>))) k"
proof -
  have "map_of (rev es) = map_of es" "map_of (rev es') = map_of es'"
    using assms by (simp_all add: map_of_inject_set distinct_map)
  moreover have "map_of es = map_of es'"
    using assms by (simp add: map_of_inject_set)
  ultimately show ?thesis
    by (simp add: loadZipCache_def Map_get_def fold_Map_set_content)
qed

subsection \<open>The planner's failure policy\<close>

text \<open>
  \<^bold>\<open>Claim C6.\<close> When neither the cache nor the remote lookup gives a coordinate for the
  centre zip (\<open>getZipCoordinates\<close> returns \<open>null\<close>) and the approximate fallback gives none
  either, \<open>findWithinRadius\<close> returns \<open>QueryFailure\<close> with the reason \<open>UnresolvableCenter\<close>,
  which is not the empty \<open>SearchResult\<close>, whatever the search strategy would have found.
\<close>

theorem C6_unresolvable_center_is_a_query_failure:
  assumes "fst (getZipCoordinates net centerZip s) = None"
    and "getApproximateLocation centerZip = None"
  shows "fst (findWithinRadius net search centerZip radiusMiles s) = QueryFailure UnresolvableCenter \<and>
         fst (findWithinRadius net search centerZip radiusMiles s) \<noteq> SearchResult []"
  using assms
  by (cases "getZipCoordinates net centerZip s")
     (simp add: findWithinRadius_def resolveCenter_def)

text \<open>The spec's example, the zip \<open>00000\<close>: the source answers 404 and the prefix 0 is in
  no range.\<close>

theorem C6_unresolvable_center_witness:
  "fst (getZipCoordinates (\<lambda>tr z. Response 404 NoPlaces) ''00000'' fresh) = None \<and>
   getApproximateLocation ''00000'' = None \<and>
   fst (findWithinRadius (\<lambda>tr z. Response 404 NoPlaces) (\<lambda>c r. []) ''00000'' 50 fresh)
     = QueryFailure UnresolvableCenter"
proof -
  have a: "fst (getZipCoordinates (\<lambda>tr z. Response 404 NoPlaces) ''00000'' fresh) = None"
    by (simp add: getZipCoordinates_def fresh_def Map_has_def substring_def response_ok_def Let_def)
  have b: "getApproximateLocation ''00000'' = None"
    by (rule getApproximateLocation_00000)
  show ?thesis
    using a b C6_unresolvable_center_is_a_query_failure [OF a b, of "\<lambda>c r. []" 50] by simp
qed

subsection \<open>The three radius queries\<close>

text \<open>Bounds on the cosine, and on the great-circle expression of test 3.\<close>

lemma one_minus_cos_le: "1 - cos (x::real) \<le> x\<^sup>2 / 2"
proof -
  have "cos x = 1 - 2 * (sin (x / 2))\<^sup>2"
    using cos_double_sin [of "x / 2"] by simp
  moreover have "(sin (x / 2))\<^sup>2 \<le> (x / 2)\<^sup>2"
    using abs_sin_x_le_abs_x [of "x / 2"] by (simp add: abs_le_square_iff [symmetric])
  ultimately show ?thesis by (simp add: power2_eq_square)
qed

lemma cos_upper:
  assumes "0 < (x::real)"
  shows "cos x \<le> 1 - x\<^sup>2 / 2 + x ^ 4 / 24"
proof -
  from Maclaurin_cos_expansion2 [of x 4] assms
  obtain t where t: "cos x = (\<Sum>m<4. cos_coeff m * x ^ m) + (cos (t + 1 / 2 * real 4 * pi) / fact 4) * x ^ 4"
    by auto
  have c: "cos_coeff (Suc 0) = 0" "cos_coeff 2 = - 1 / 2" "cos_coeff 3 = 0"
    by (simp_all add: cos_coeff_def)
  have "(\<Sum>m<4. cos_coeff m * x ^ m) =
        cos_coeff 0 * x ^ 0 + cos_coeff 1 * x ^ 1 + cos_coeff 2 * x ^ 2 + cos_coeff 3 * x ^ 3"
    by (simp add: eval_nat_numeral)
  then have s: "(\<Sum>m<4. cos_coeff m * x ^ m) = 1 - x\<^sup>2 / 2"
    by (simp add: c)
  have f: "fact 4 = (24::real)" by (simp add: eval_nat_numeral)
  have x4: "0 \<le> x ^ 4" using assms by simp
  have "cos (t + 1 / 2 * real 4 * pi) * x ^ 4 \<le> 1 * x ^ 4"
    using x4 by (intro mult_right_mono) simp_all
  then have "(cos (t + 1 / 2 * real 4 * pi) * x ^ 4) / 24 \<le> (1 * x ^ 4) / 24"
    by (rule divide_right_mono) simp
  then have "(cos (t + 1 / 2 * real 4 * pi) / fact 4) * x ^ 4 \<le> x ^ 4 / 24"
    unfolding f by simp
  then show ?thesis using t s by linarith
qed

lemma dot_le_one: "cos a * cos b * cos d + sin a * sin b \<le> (1::real)"
proof -
  have 1: "cos a * cos b * cos d \<le> \<bar>cos a * cos b\<bar>"
  proof -
    have "cos a * cos b * cos d \<le> \<bar>cos a * cos b * cos d\<bar>" by simp
    also have "\<dots> = \<bar>cos a * cos b\<bar> * \<bar>cos d\<bar>" by (simp add: abs_mult)
    also have "\<dots> \<le> \<bar>cos a * cos b\<bar> * 1"
      by (intro mult_left_mono) simp_all
    finally show ?thesis by simp
  qed
  have 2: "\<bar>cos a * cos b\<bar> \<le> ((cos a)\<^sup>2 + (cos b)\<^sup>2) / 2"
  proof -
    have "0 \<le> (\<bar>cos a\<bar> - \<bar>cos b\<bar>)\<^sup>2" by simp
    then show ?thesis by (simp add: power2_diff abs_mult)
  qed
  have 3: "sin a * sin b \<le> ((sin a)\<^sup>2 + (sin b)\<^sup>2) / 2"
  proof -
    have "0 \<le> (sin a - sin b)\<^sup>2" by simp
    then show ?thesis by (simp add: power2_diff)
  qed
  have 4: "((cos a)\<^sup>2 + (cos b)\<^sup>2) / 2 + ((sin a)\<^sup>2 + (sin b)\<^sup>2) / 2 = (1::real)"
  proof -
    have r: "(u + v) / 2 + (p + q) / 2 = ((u + p) + (v + q)) / 2" for u v p q :: real
      by (simp add: field_simps)
    show ?thesis unfolding r by simp
  qed
  show ?thesis using 1 2 3 4 by linarith
qed

lemma dot_lower:
  "cos (a - b) - (1 - cos d) \<le> cos a * cos b * cos d + sin a * sin (b::real)"
proof -
  have "cos a * cos b * cos d + sin a * sin b = cos (a - b) - cos a * cos b * (1 - cos d)"
    by (simp add: cos_diff algebra_simps)
  moreover have "cos a * cos b * (1 - cos d) \<le> 1 * (1 - cos d)"
  proof (intro mult_right_mono)
    have "cos a * cos b \<le> \<bar>cos a\<bar> * \<bar>cos b\<bar>" by (metis abs_ge_self abs_mult)
    also have "\<dots> \<le> 1 * 1" by (intro mult_mono) simp_all
    finally show "cos a * cos b \<le> 1" by simp
    show "0 \<le> 1 - cos d" by simp
  qed
  ultimately show ?thesis by simp
qed

lemma great_circle_bound:
  fixes a b d \<theta> :: real
  assumes "0 < \<theta>" "\<theta> \<le> pi"
    and "(a - b)\<^sup>2 / 2 + d\<^sup>2 / 2 \<le> \<theta>\<^sup>2 / 2 - \<theta> ^ 4 / 24"
  shows "arccos (cos a * cos b * cos d + sin a * sin b) \<le> \<theta>"
proof -
  let ?X = "cos a * cos b * cos d + sin a * sin b"
  have "cos \<theta> \<le> 1 - \<theta>\<^sup>2 / 2 + \<theta> ^ 4 / 24" using assms(1) by (rule cos_upper)
  also have "\<dots> \<le> 1 - (a - b)\<^sup>2 / 2 - d\<^sup>2 / 2" using assms(3) by simp
  also have "\<dots> \<le> cos (a - b) - (1 - cos d)"
    using one_minus_cos_le [of "a - b"] one_minus_cos_le [of d] by simp
  also have "\<dots> \<le> ?X" by (rule dot_lower)
  finally have low: "cos \<theta> \<le> ?X" .
  have "arccos ?X \<le> arccos (cos \<theta>)"
    using low dot_le_one [of a b d] by (intro arccos_le_arccos) simp_all
  also have "arccos (cos \<theta>) = \<theta>" using assms by (simp add: arccos_cos)
  finally show ?thesis .
qed

lemma case_44101: "caseLat ''44101'' = 41.5" "caseLng ''44101'' = -81.7"
  by (simp_all add: caseLat_def caseLng_def between_def LEFT_def)

lemma distance_44101: "distance_miles ''44101'' \<le> RADIUS_MILES"
proof -
  let ?a = "RADIANS centerLat"
  let ?b = "RADIANS 41.5"
  let ?d = "RADIANS (-81.7) - RADIANS centerLng"
  let ?t = "50 / 3959 :: real"
  have pi2: "pi\<^sup>2 \<le> 16"
  proof -
    have "pi * pi \<le> 4 * 4" using pi_less_4 pi_ge_zero by (intro mult_mono) simp_all
    then show ?thesis by (simp add: power2_eq_square)
  qed
  have ab: "(?a - ?b)\<^sup>2 = (49 / 18000)\<^sup>2 * pi\<^sup>2"
    by (simp add: RADIANS_def centerLat_def power2_eq_square field_simps)
  have dd: "?d\<^sup>2 = (14 / 18000)\<^sup>2 * pi\<^sup>2"
    by (simp add: RADIANS_def centerLng_def power2_eq_square field_simps)
  have "(?a - ?b)\<^sup>2 / 2 + ?d\<^sup>2 / 2 = ((49 / 18000)\<^sup>2 + (14 / 18000)\<^sup>2) / 2 * pi\<^sup>2"
    unfolding ab dd by (simp add: field_simps)
  also have "\<dots> \<le> ((49 / 18000)\<^sup>2 + (14 / 18000)\<^sup>2) / 2 * 16"
    using pi2 by (intro mult_left_mono) simp_all
  also have "\<dots> \<le> ?t\<^sup>2 / 2 - ?t ^ 4 / 24"
    by (simp add: power2_eq_square power4_eq_xxxx)
  finally have bound: "(?a - ?b)\<^sup>2 / 2 + ?d\<^sup>2 / 2 \<le> ?t\<^sup>2 / 2 - ?t ^ 4 / 24" .
  have tpi: "?t \<le> pi" using pi_ge_two by simp
  have "arccos (cos ?a * cos ?b * cos ?d + sin ?a * sin ?b) \<le> ?t"
    using bound tpi by (intro great_circle_bound) simp_all
  then have "3959 * arccos (cos ?a * cos ?b * cos ?d + sin ?a * sin ?b) \<le> 3959 * ?t"
    by (intro mult_left_mono) simp_all
  then show ?thesis
    by (simp add: distance_miles_def great_circle_miles_def case_44101 RADIUS_MILES_def)
qed

text \<open>The statements of the first two queries compile; the third does not, whatever the
  table holds.\<close>

lemma compiles_statements:
  "compiles statement1" "compiles statement2" "compiles statement3 = False"
  by (simp_all add: compiles_def grouped_def statement1_def statement2_def statement3_def)

lemma lngDelta_ge: "50 / 69 \<le> lngDelta"
proof -
  let ?x = "centerLat * pi / 180"
  have "0 < ?x" by (simp add: centerLat_def)
  then have lo: "- (pi / 2) < ?x" using pi_gt_zero by linarith
  have hi: "?x < pi / 2" using pi_gt_zero by (simp add: centerLat_def)
  have pos: "0 < cos ?x" using lo hi by (rule cos_gt_zero_pi)
  have "69 * cos ?x \<le> 69 * 1" by (intro mult_left_mono) simp_all
  then have "50 / (69 * 1) \<le> 50 / (69 * cos ?x)"
    using pos by (intro divide_left_mono) simp_all
  then show ?thesis by (simp add: lngDelta_def RADIUS_MILES_def)
qed

lemma demo_located_in_bbox: "STIntersects demo_engine (41.14, -81.86) bbox"
  using lngDelta_ge
  by (simp add: demo_engine_def bbox_def latDelta_def RADIUS_MILES_def centerLat_def centerLng_def)

text \<open>
  \<^bold>\<open>Claim C5, against the code.\<close> The third strategy returns no set of records: its
  statement has a \<open>HAVING\<close> clause without \<open>GROUP BY\<close> and names plain columns, so the
  engine refuses it whatever the table holds, and \<open>runTests\<close> ends there. The first two
  statements compile: on the table with one profile stored some ten miles from the
  centre, both return that profile.
\<close>

theorem C5_exhaustive_query_is_refused:
  "(\<forall>table. test3_manual table = RequestError) \<and>
   test1_native demo_engine demo_located = Recordset demo_located \<and>
   test2_bbox demo_engine demo_located = Recordset demo_located"
proof -
  have 3: "test3_manual table = RequestError" for table
    by (simp add: test3_manual_def query_def compiles_statements)
  have d: "STDistance demo_engine (41.14, -81.86) (centerLat, centerLng) \<le> radiusMeters"
    by (simp add: demo_engine_def centerLat_def centerLng_def radiusMeters_def RADIUS_MILES_def)
  have 1: "test1_native demo_engine demo_located = Recordset demo_located"
    using d by (simp add: test1_native_def query_def compiles_statements demo_located_def)
  have 2: "test2_bbox demo_engine demo_located = Recordset demo_located"
    using d demo_located_in_bbox
    by (simp add: test2_bbox_def query_def compiles_statements demo_located_def)
  show ?thesis using 1 2 3 by simp
qed

subsection \<open>The distance calculator\<close>

text \<open>The Haversine term is half of one minus the cosine of the angular separation, so it
  lies between 0 and 1 for all arguments.\<close>

lemma dot_unit_vectors:
  "dot (unit_vector a) (unit_vector b) =
     cos (RADIANS (fst a)) * cos (RADIANS (fst b)) * cos (RADIANS (snd b) - RADIANS (snd a)) +
     sin (RADIANS (fst a)) * sin (RADIANS (fst b))"
  by (simp add: dot_def unit_vector_def cos_diff algebra_simps)

lemma RADIANS_diff: "RADIANS (x - y) = RADIANS x - RADIANS y"
  by (simp add: RADIANS_def field_simps)

lemma sin_half_squared: "2 * (sin (x / 2))\<^sup>2 = 1 - cos (x::real)"
  using cos_double_sin [of "x / 2"] by simp

lemma haversine_dot: "1 - 2 * haversine a b = dot (unit_vector a) (unit_vector b)"
proof -
  let ?p = "RADIANS (fst a)" and ?q = "RADIANS (fst b)"
  let ?d = "RADIANS (snd b) - RADIANS (snd a)"
  have 1: "2 * (sin ((?q - ?p) / 2))\<^sup>2 = 1 - cos (?q - ?p)"
    by (rule sin_half_squared)
  have 2: "2 * (sin (?d / 2))\<^sup>2 = 1 - cos ?d"
    by (rule sin_half_squared)
  have "2 * haversine a b =
          2 * (sin ((?q - ?p) / 2))\<^sup>2 + cos ?p * cos ?q * (2 * (sin (?d / 2))\<^sup>2)"
    by (simp add: haversine_def RADIANS_diff algebra_simps)
  also have "\<dots> = 1 - cos (?q - ?p) + cos ?p * cos ?q * (1 - cos ?d)"
    unfolding 1 2 ..
  also have "\<dots> = 1 - (cos ?p * cos ?q * cos ?d + sin ?p * sin ?q)"
    by (simp add: cos_diff algebra_simps)
  finally show ?thesis by (simp add: dot_unit_vectors)
qed

lemma dot_ge_minus_one: "- 1 \<le> cos a * cos b * cos d + sin a * sin (b::real)"
proof -
  have "cos a * cos (- b) * cos (d + pi) + sin a * sin (- b) \<le> 1" by (rule dot_le_one)
  then show ?thesis by simp
qed

lemma dot_unit_vectors_bounds:
  "- 1 \<le> dot (unit_vector a) (unit_vector b)" "dot (unit_vector a) (unit_vector b) \<le> 1"
  unfolding dot_unit_vectors by (rule dot_ge_minus_one, rule dot_le_one)

lemma haversine_bounds: "0 \<le> haversine a b" "haversine a b \<le> 1"
  using dot_unit_vectors_bounds [of a b] haversine_dot [of a b] by simp_all

lemma two_arcsin_sqrt:
  assumes "0 \<le> h" "h \<le> (1::real)"
  shows "2 * arcsin (sqrt h) = arccos (1 - 2 * h)"
proof -
  let ?t = "arcsin (sqrt h)"
  have s0: "0 \<le> sqrt h" and s1: "sqrt h \<le> 1" using assms by simp_all
  have sm: "- 1 \<le> sqrt h" using s0 by linarith
  have sn: "sin ?t = sqrt h" using sm s1 by (rule sin_arcsin)
  have "arcsin 0 \<le> ?t" using s0 s1 by (intro arcsin_le_arcsin) simp_all
  then have lo: "0 \<le> ?t" by simp
  have hi: "?t \<le> pi / 2" using sm s1 by (rule arcsin_ubound)
  have "cos (2 * ?t) = 1 - 2 * (sin ?t)\<^sup>2" by (rule cos_double_sin)
  also have "\<dots> = 1 - 2 * h" using assms by (simp add: sn)
  finally have "arccos (1 - 2 * h) = arccos (cos (2 * ?t))" by simp
  also have "\<dots> = 2 * ?t" using lo hi by (intro arccos_cos) simp_all
  finally show ?thesis by simp
qed

lemma distanceMiles_angular_separation:
  "distanceMiles a b = EARTH_RADIUS_MILES * angular_separation a b"
  using two_arcsin_sqrt [OF haversine_bounds, of a b]
  by (simp add: distanceMiles_def angular_separation_def haversine_dot)

lemma distanceMiles_same: "distanceMiles a a = 0"
  by (simp add: distanceMiles_def haversine_def RADIANS_def)

lemma distanceMiles_commute: "distanceMiles a b = distanceMiles b a"
proof -
  have s: "(sin (RADIANS (x - y) / 2))\<^sup>2 = (sin (RADIANS (y - x) / 2))\<^sup>2" for x y
  proof -
    have "RADIANS (x - y) / 2 = - (RADIANS (y - x) / 2)" by (simp add: RADIANS_def field_simps)
    then show ?thesis by (simp only: sin_minus power2_minus)
  qed
  have "haversine a b = haversine b a"
    unfolding haversine_def s [of "fst b" "fst a"] s [of "snd b" "snd a"] by simp
  then show ?thesis by (simp add: distanceMiles_def)
qed

text \<open>
  \<^bold>\<open>Claim C7.\<close> The Haversine formula with the radius 3959 gives zero for a coordinate
  and itself, the same distance in both directions, and the radius times the angular
  separation of the two coordinates: it is the length in miles of the great-circle arc
  between them, and one pair of coordinates is at most (less than) as far apart in miles
  as another when its angular separation is at most (less than) the other's.
\<close>

theorem C7_distanceMiles_zero_symmetric_monotonic:
  "distanceMiles a a = 0 \<and>
   distanceMiles a b = distanceMiles b a \<and>
   distanceMiles a b = 3959 * angular_separation a b \<and>
   (angular_separation a b \<le> angular_separation c d \<longrightarrow> distanceMiles a b \<le> distanceMiles c d) \<and>
   (angular_separation a b < angular_separation c d \<longrightarrow> distanceMiles a b < distanceMiles c d)"
proof -
  have 1: "distanceMiles a a = 0" by (rule distanceMiles_same)
  have 2: "distanceMiles a b = distanceMiles b a" by (rule distanceMiles_commute)
  have 3: "distanceMiles x y = 3959 * angular_separation x y" for x y
    by (simp add: distanceMiles_angular_separation EARTH_RADIUS_MILES_def)
  have 4: "angular_separation a b \<le> angular_separation c d \<longrightarrow>
           distanceMiles a b \<le> distanceMiles c d"
    unfolding 3 by simp
  have 5: "angular_separation a b < angular_separation c d \<longrightarrow>
           distanceMiles a b < distanceMiles c d"
    unfolding 3 by simp
  show ?thesis using 1 2 3 [of a b] 4 5 by blast
qed

text \<open>A coordinate and itself, against two points a quarter of the equator apart.\<close>

theorem C7_distanceMiles_witness:
  "angular_separation (41.01, -81.84) (41.01, -81.84) < angular_separation (0, 0) (0, 90) \<and>
   distanceMiles (41.01, -81.84) (41.01, -81.84) = 0 \<and>
   distanceMiles (0, 0) (0, 90) = 3959 * (pi / 2) \<and>
   distanceMiles (0, 90) (0, 0) = 3959 * (pi / 2) \<and>
   distanceMiles (41.01, -81.84) (41.01, -81.84) < distanceMiles (0, 0) (0, 90)"
proof -
  have q: "angular_separation (0, 0) (0, 90) = pi / 2"
    by (simp add: angular_separation_def dot_def unit_vector_def RADIANS_def)
  have z: "angular_separation (41.01, -81.84) (41.01, -81.84) = 0"
    using distanceMiles_angular_separation [of "(41.01, -81.84)" "(41.01, -81.84)"]
    by (simp add: distanceMiles_same EARTH_RADIUS_MILES_def)
  have h: "angular_separation (41.01, -81.84) (41.01, -81.84) < angular_separation (0, 0) (0, 90)"
    unfolding q z by simp
  note inst = C7_distanceMiles_zero_symmetric_monotonic
      [of "(41.01, -81.84)" "(41.01, -81.84)" "(0, 0)" "(0, 90)"]
  note eq = C7_distanceMiles_zero_symmetric_monotonic [of "(0, 0)" "(0, 90)" "(0, 0)" "(0, 0)"]
  show ?thesis using h inst eq q by simp
qed

text \<open>
  The expression of test 3 is the same distance in another form (the spherical law of
  cosines), over the real numbers: for the centre and the coordinate of a zip prefix it
  computes what \<open>distanceMiles\<close> specifies.
\<close>

lemma great_circle_miles_distanceMiles: "great_circle_miles a b = distanceMiles a b"
  by (simp add: great_circle_miles_def distanceMiles_angular_separation angular_separation_def
        dot_unit_vectors EARTH_RADIUS_MILES_def)

lemma great_circle_miles_same: "great_circle_miles a a = 0"
  by (simp add: great_circle_miles_distanceMiles distanceMiles_same)

lemma great_circle_miles_commute: "great_circle_miles a b = great_circle_miles b a"
  by (simp add: great_circle_miles_distanceMiles distanceMiles_commute [of a b])

lemma distance_miles_distanceMiles:
  "distance_miles zipCode = distanceMiles (centerLat, centerLng) (caseLat zipCode, caseLng zipCode)"
  by (simp add: distance_miles_def great_circle_miles_distanceMiles)

end
